theory Spec2Isabelle
  imports Complex_Main "HOL-Library.Log_Nat"
begin

section \<open>The host's numbers and dates\<close>

text \<open>
  The library of \<^verbatim>\<open>src/index.ts\<close> is a class of static functions over the host's
  \<^verbatim>\<open>Date\<close> objects and Numbers. Both are modelled here after ECMA-262 (section
  "Date Objects"), under its own names.

  A Number is \<open>Some q\<close> for a finite value \<open>q\<close>, a double given as the rational it
  is, and \<open>None\<close> for a value that is not finite (NaN and the two infinities: every
  operation below treats the three alike). The time value of a Date is \<open>Some t\<close>,
  \<open>t\<close> milliseconds since the epoch, or \<open>None\<close> for an invalid Date (time value NaN).

  The host's time zone is a parameter \<open>tz\<close> of every function that reads or writes a local
  calendar field: \<open>tz t True\<close> is the offset of local time from UTC, in milliseconds, at
  the UTC time \<open>t\<close>, and \<open>tz t False\<close> the offset at the local time \<open>t\<close> (the
  \<^verbatim>\<open>LocalTZA(t, isUTC)\<close> of the standard).
\<close>

type_synonym number = "rat option"
type_synonym timevalue = "int option"
type_synonym timezone = "int \<Rightarrow> bool \<Rightarrow> int"

subsection \<open>Doubles\<close>

text \<open>
  The arithmetic of Numbers is that of IEEE 754 in binary64: the exact result, rounded to
  the nearest double, a tie going to the double whose last bit is zero. \<open>double q\<close> is
  that double for a rational \<open>q\<close>: \<open>q\<close> lies in the binade of \<open>exponent q\<close>, where doubles
  are \<open>pow2 (exponent q - 52)\<close> apart (below the binade of \<open>- 1022\<close> they stay as far
  apart as in it). \<open>ieee q\<close> is the Number an operation returns whose exact result is
  \<open>q\<close>: an infinity where \<open>double q\<close> is past the largest double, in a binade from
  \<open>1024\<close> on.
\<close>

definition pow2 :: "int \<Rightarrow> rat" where
  "pow2 e = (if 0 \<le> e then 2 ^ nat e else 1 / 2 ^ nat (- e))"

definition exponent :: "rat \<Rightarrow> int" where
  \<comment> \<open>for \<open>q\<close> other than 0, the \<open>e\<close> with \<open>pow2 e \<le> \<bar>q\<bar> < pow2 (e + 1)\<close>\<close>
  "exponent q =
     (if 1 \<le> \<bar>q\<bar> then bitlen \<lfloor>\<bar>q\<bar>\<rfloor> - 1 else - bitlen (\<lceil>1 / \<bar>q\<bar>\<rceil> - 1))"

definition roundTiesToEven :: "rat \<Rightarrow> int" where
  "roundTiesToEven x =
     (let f = \<lfloor>x\<rfloor>; r = x - of_int f
      in if r < 1 / 2 then f
         else if 1 / 2 < r then f + 1
         else if even f then f else f + 1)"

definition double :: "rat \<Rightarrow> rat" where
  "double q =
     (if q = 0 then 0
      else (let u = pow2 (max (exponent q) (- 1022) - 52)
            in of_int (roundTiesToEven (q / u)) * u))"

definition ieee :: "rat \<Rightarrow> number" where
  "ieee q = (let r = double q in if exponent r < 1024 then Some r else None)"

definition num :: "int option \<Rightarrow> number" where
  \<comment> \<open>a time value or a calendar field as the Number it is\<close>
  "num v = map_option of_int v"

definition intnum :: "int \<Rightarrow> number" where
  "intnum i = Some (of_int i)"

definition plus_number :: "number \<Rightarrow> number \<Rightarrow> number" where
  "plus_number x y = (case (x, y) of (Some a, Some b) \<Rightarrow> ieee (a + b) | _ \<Rightarrow> None)"

definition minus_number :: "number \<Rightarrow> number \<Rightarrow> number" where
  "minus_number x y = (case (x, y) of (Some a, Some b) \<Rightarrow> ieee (a - b) | _ \<Rightarrow> None)"

definition times_number :: "number \<Rightarrow> number \<Rightarrow> number" where
  "times_number x y = (case (x, y) of (Some a, Some b) \<Rightarrow> ieee (a * b) | _ \<Rightarrow> None)"

definition divide_number :: "number \<Rightarrow> number \<Rightarrow> number" where
  \<comment> \<open>division by zero gives NaN or an infinity\<close>
  "divide_number x y =
     (case (x, y) of (Some a, Some b) \<Rightarrow> if b = 0 then None else ieee (a / b) | _ \<Rightarrow> None)"

text \<open>
  A Date holds a time value within \<open>8.64 * 10 ^ 15\<close> milliseconds of the epoch, so its year
  lies between \<open>- 271821\<close> and \<open>275760\<close>. The year, the month, the date and the day of the
  week of a Date are thus integers of six digits at most, and the sums, differences and
  products that the library forms of them alone (in \<^verbatim>\<open>monthsBetween\<close>,
  \<^verbatim>\<open>yearsBetween\<close> and \<^verbatim>\<open>firstDayOfWeek\<close>) are far below \<open>2 ^ 53\<close>, where the
  arithmetic of doubles is exact. The model computes these in the integers.
\<close>

definition plus_field :: "int option \<Rightarrow> int option \<Rightarrow> int option" where
  "plus_field x y = (case (x, y) of (Some a, Some b) \<Rightarrow> Some (a + b) | _ \<Rightarrow> None)"

definition minus_field :: "int option \<Rightarrow> int option \<Rightarrow> int option" where
  "minus_field x y = (case (x, y) of (Some a, Some b) \<Rightarrow> Some (a - b) | _ \<Rightarrow> None)"

definition times_field :: "int option \<Rightarrow> int option \<Rightarrow> int option" where
  "times_field x y = (case (x, y) of (Some a, Some b) \<Rightarrow> Some (a * b) | _ \<Rightarrow> None)"

definition negate_number :: "number \<Rightarrow> number" where
  "negate_number x = map_option uminus x"

definition Math_abs :: "number \<Rightarrow> number" where
  "Math_abs x = map_option abs x"

definition Math_round :: "number \<Rightarrow> number" where
  \<comment> \<open>the nearest integer, a tie going towards plus infinity\<close>
  "Math_round x = map_option (\<lambda>q. of_int \<lfloor>q + 1 / 2\<rfloor>) x"

definition strict_equal :: "int option \<Rightarrow> int option \<Rightarrow> bool" where
  \<comment> \<open>\<^verbatim>\<open>===\<close> on Numbers: NaN equals nothing\<close>
  "strict_equal x y = (case (x, y) of (Some a, Some b) \<Rightarrow> a = b | _ \<Rightarrow> False)"

definition less_than :: "int option \<Rightarrow> int option \<Rightarrow> bool" where
  "less_than x y = (case (x, y) of (Some a, Some b) \<Rightarrow> a < b | _ \<Rightarrow> False)"

definition greater_than :: "int option \<Rightarrow> int option \<Rightarrow> bool" where
  "greater_than x y = (case (x, y) of (Some a, Some b) \<Rightarrow> a > b | _ \<Rightarrow> False)"

definition ToIntegerOrInfinity :: "rat \<Rightarrow> int" where
  \<comment> \<open>on a finite Number: truncation towards zero\<close>
  "ToIntegerOrInfinity q = (if q < 0 then \<lceil>q\<rceil> else \<lfloor>q\<rfloor>)"

definition toFixed :: "nat \<Rightarrow> number \<Rightarrow> number" where
  \<comment> \<open>\<^verbatim>\<open>x.toFixed(f)\<close> prints the decimal numeral of \<open>n / 10 ^ f\<close>, \<open>n\<close> the integer
      nearest \<open>x * 10 ^ f\<close> and the larger one at a tie; from \<open>10 ^ 21\<close> on it prints
      \<open>x\<close> itself. The model keeps the value of the numeral, not its digits\<close>
  "toFixed f x =
     (case x of
        None \<Rightarrow> None
      | Some q \<Rightarrow>
          if 10 ^ 21 \<le> \<bar>q\<bar> then Some q
          else Some (sgn q * of_int \<lfloor>\<bar>q\<bar> * 10 ^ f + 1 / 2\<rfloor> / 10 ^ f))"

definition Number :: "number \<Rightarrow> number" where
  \<comment> \<open>\<^verbatim>\<open>Number(s)\<close> on a numeral that \<^verbatim>\<open>toFixed\<close> has printed: the double nearest to
      its value. An integer reads back as itself: the integers that \<^verbatim>\<open>toFixed\<close> prints
      from a double are doubles\<close>
  "Number v =
     (case v of
        None \<Rightarrow> None
      | Some q \<Rightarrow> if q = of_int \<lfloor>q\<rfloor> then Some q else Some (double q))"

subsection \<open>Day number and time within day\<close>

definition msPerSecond :: int where "msPerSecond = 1000"
definition msPerMinute :: int where "msPerMinute = 60000"
definition msPerHour :: int where "msPerHour = 3600000"
definition msPerDay :: int where "msPerDay = 86400000"

definition Day :: "int \<Rightarrow> int" where
  "Day t = t div msPerDay"

definition TimeWithinDay :: "int \<Rightarrow> int" where
  "TimeWithinDay t = t mod msPerDay"

definition DaysInYear :: "int \<Rightarrow> int" where
  "DaysInYear y =
     (if y mod 4 \<noteq> 0 then 365
      else if y mod 100 \<noteq> 0 then 366
      else if y mod 400 \<noteq> 0 then 365
      else 366)"

definition DayFromYear :: "int \<Rightarrow> int" where
  "DayFromYear y =
     365 * (y - 1970) + (y - 1969) div 4 - (y - 1901) div 100 + (y - 1601) div 400"

definition YearFromTime :: "int \<Rightarrow> int" where
  \<comment> \<open>the largest year whose first day is not after \<open>t\<close>: an estimate from the mean
      length of a year, corrected by one where it is off\<close>
  "YearFromTime t =
     (let d = Day t; y = 1970 + (400 * d) div 146097
      in if d < DayFromYear y then y - 1
         else if DayFromYear (y + 1) \<le> d then y + 1
         else y)"

definition InLeapYear :: "int \<Rightarrow> int" where
  "InLeapYear t = (if DaysInYear (YearFromTime t) = 366 then 1 else 0)"

definition DayWithinYear :: "int \<Rightarrow> int" where
  "DayWithinYear t = Day t - DayFromYear (YearFromTime t)"

definition MonthFromTime :: "int \<Rightarrow> int" where
  "MonthFromTime t =
     (let d = DayWithinYear t; l = InLeapYear t
      in if d < 31 then 0
         else if d < 59 + l then 1
         else if d < 90 + l then 2
         else if d < 120 + l then 3
         else if d < 151 + l then 4
         else if d < 181 + l then 5
         else if d < 212 + l then 6
         else if d < 243 + l then 7
         else if d < 273 + l then 8
         else if d < 304 + l then 9
         else if d < 334 + l then 10
         else 11)"

definition DateFromTime :: "int \<Rightarrow> int" where
  "DateFromTime t =
     (let d = DayWithinYear t; l = InLeapYear t; m = MonthFromTime t
      in if m = 0 then d + 1
         else if m = 1 then d - 30
         else if m = 2 then d - 58 - l
         else if m = 3 then d - 89 - l
         else if m = 4 then d - 119 - l
         else if m = 5 then d - 150 - l
         else if m = 6 then d - 180 - l
         else if m = 7 then d - 211 - l
         else if m = 8 then d - 242 - l
         else if m = 9 then d - 272 - l
         else if m = 10 then d - 303 - l
         else d - 333 - l)"

definition WeekDay :: "int \<Rightarrow> int" where
  \<comment> \<open>0 is Sunday; the epoch was a Thursday\<close>
  "WeekDay t = (Day t + 4) mod 7"

definition HourFromTime :: "int \<Rightarrow> int" where
  "HourFromTime t = (t div msPerHour) mod 24"

definition MinFromTime :: "int \<Rightarrow> int" where
  "MinFromTime t = (t div msPerMinute) mod 60"

definition SecFromTime :: "int \<Rightarrow> int" where
  "SecFromTime t = (t div msPerSecond) mod 60"

definition msFromTime :: "int \<Rightarrow> int" where
  "msFromTime t = t mod msPerSecond"

subsection \<open>Local time, and building a time value\<close>

text \<open>
  \<^verbatim>\<open>MakeTime\<close> adds its four terms in doubles, as the standard has it. \<^verbatim>\<open>MakeDay\<close>,
  \<^verbatim>\<open>MakeDate\<close>, \<^verbatim>\<open>LocalTime\<close> and \<^verbatim>\<open>UTC\<close> work on integers and are given in the
  integers: the host rounds such a sum only where it is beyond \<open>2 ^ 53\<close>, and then to a
  double that is no less than \<open>2 ^ 53\<close> in absolute value; \<^verbatim>\<open>TimeClip\<close>, which every
  time value passes before a Date holds it, makes an invalid Date of either, its bound
  being below \<open>2 ^ 53\<close> by more than any offset of a zone and any time of day.
\<close>

definition LocalTime :: "timezone \<Rightarrow> int \<Rightarrow> int" where
  "LocalTime tz t = t + tz t True"

definition UTC :: "timezone \<Rightarrow> int option \<Rightarrow> int option" where
  "UTC tz v = map_option (\<lambda>t. t - tz t False) v"

definition MakeTime :: "number \<Rightarrow> number \<Rightarrow> number \<Rightarrow> number \<Rightarrow> int option" where
  \<comment> \<open>the sum is formed in doubles, from the left; it is an integer, as the double of
      an integer is\<close>
  "MakeTime hour minute sec ms =
     (case (hour, minute, sec, ms) of
        (Some h, Some m, Some s, Some milli) \<Rightarrow>
          map_option floor
            (plus_number
               (plus_number
                  (plus_number
                     (times_number (intnum (ToIntegerOrInfinity h)) (intnum msPerHour))
                     (times_number (intnum (ToIntegerOrInfinity m)) (intnum msPerMinute)))
                  (times_number (intnum (ToIntegerOrInfinity s)) (intnum msPerSecond)))
               (intnum (ToIntegerOrInfinity milli)))
      | _ \<Rightarrow> None)"

definition DaysBeforeMonth :: "int \<Rightarrow> int \<Rightarrow> int" where
  \<comment> \<open>the days of year \<open>y\<close> before the first of month \<open>m\<close> (0 to 11)\<close>
  "DaysBeforeMonth y m =
     (let l = (if DaysInYear y = 366 then 1 else 0)
      in if m = 0 then 0
         else if m = 1 then 31
         else if m = 2 then 59 + l
         else if m = 3 then 90 + l
         else if m = 4 then 120 + l
         else if m = 5 then 151 + l
         else if m = 6 then 181 + l
         else if m = 7 then 212 + l
         else if m = 8 then 243 + l
         else if m = 9 then 273 + l
         else if m = 10 then 304 + l
         else 334 + l)"

definition MakeDay :: "number \<Rightarrow> number \<Rightarrow> number \<Rightarrow> int option" where
  \<comment> \<open>the day number of the first of month \<open>mn\<close> of year \<open>ym\<close>, plus \<open>dt - 1\<close>\<close>
  "MakeDay year month date =
     (case (year, month, date) of
        (Some y, Some m, Some dt) \<Rightarrow>
          (let ym = ToIntegerOrInfinity y + ToIntegerOrInfinity m div 12;
               mn = ToIntegerOrInfinity m mod 12
           in Some (DayFromYear ym + DaysBeforeMonth ym mn + ToIntegerOrInfinity dt - 1))
      | _ \<Rightarrow> None)"

definition MakeDate :: "int option \<Rightarrow> int option \<Rightarrow> int option" where
  "MakeDate day time =
     (case (day, time) of (Some d, Some t) \<Rightarrow> Some (d * msPerDay + t) | _ \<Rightarrow> None)"

definition maxTimeValue :: int where
  "maxTimeValue = 8640000000000000"

definition TimeClip :: "int option \<Rightarrow> timevalue" where
  "TimeClip v =
     (case v of None \<Rightarrow> None | Some t \<Rightarrow> if \<bar>t\<bar> > maxTimeValue then None else Some t)"

definition newDate :: "number \<Rightarrow> timevalue" where
  \<comment> \<open>\<^verbatim>\<open>new Date(value)\<close> on a Number\<close>
  "newDate v = TimeClip (map_option ToIntegerOrInfinity v)"

subsection \<open>The methods of a Date\<close>

text \<open>
  A getter takes the time value of its Date and returns a Number, NaN on an invalid Date.
  A setter takes the time value and returns the new one, which the caller stores in the
  object: the method both stores and returns it.
\<close>

definition getTime :: "timevalue \<Rightarrow> int option" where
  "getTime d = d"

definition getFullYear :: "timezone \<Rightarrow> timevalue \<Rightarrow> int option" where
  "getFullYear tz d = map_option (\<lambda>t. YearFromTime (LocalTime tz t)) d"

definition getMonth :: "timezone \<Rightarrow> timevalue \<Rightarrow> int option" where
  "getMonth tz d = map_option (\<lambda>t. MonthFromTime (LocalTime tz t)) d"

definition getDate :: "timezone \<Rightarrow> timevalue \<Rightarrow> int option" where
  "getDate tz d = map_option (\<lambda>t. DateFromTime (LocalTime tz t)) d"

definition getDay :: "timezone \<Rightarrow> timevalue \<Rightarrow> int option" where
  "getDay tz d = map_option (\<lambda>t. WeekDay (LocalTime tz t)) d"

definition getHours :: "timezone \<Rightarrow> timevalue \<Rightarrow> int option" where
  "getHours tz d = map_option (\<lambda>t. HourFromTime (LocalTime tz t)) d"

definition getMinutes :: "timezone \<Rightarrow> timevalue \<Rightarrow> int option" where
  "getMinutes tz d = map_option (\<lambda>t. MinFromTime (LocalTime tz t)) d"

definition getSeconds :: "timezone \<Rightarrow> timevalue \<Rightarrow> int option" where
  "getSeconds tz d = map_option (\<lambda>t. SecFromTime (LocalTime tz t)) d"

definition setSeconds :: "timezone \<Rightarrow> timevalue \<Rightarrow> number \<Rightarrow> timevalue" where
  "setSeconds tz d sec =
     (case d of
        None \<Rightarrow> None
      | Some t0 \<Rightarrow>
          (let t = LocalTime tz t0
           in TimeClip (UTC tz (MakeDate (Some (Day t))
                (MakeTime (intnum (HourFromTime t)) (intnum (MinFromTime t)) sec
                   (intnum (msFromTime t)))))))"

definition setMinutes :: "timezone \<Rightarrow> timevalue \<Rightarrow> number \<Rightarrow> timevalue" where
  "setMinutes tz d minute =
     (case d of
        None \<Rightarrow> None
      | Some t0 \<Rightarrow>
          (let t = LocalTime tz t0
           in TimeClip (UTC tz (MakeDate (Some (Day t))
                (MakeTime (intnum (HourFromTime t)) minute (intnum (SecFromTime t))
                   (intnum (msFromTime t)))))))"

definition setHours :: "timezone \<Rightarrow> timevalue \<Rightarrow> number \<Rightarrow> timevalue" where
  "setHours tz d hour =
     (case d of
        None \<Rightarrow> None
      | Some t0 \<Rightarrow>
          (let t = LocalTime tz t0
           in TimeClip (UTC tz (MakeDate (Some (Day t))
                (MakeTime hour (intnum (MinFromTime t)) (intnum (SecFromTime t))
                   (intnum (msFromTime t)))))))"

definition setDate :: "timezone \<Rightarrow> timevalue \<Rightarrow> number \<Rightarrow> timevalue" where
  "setDate tz d date =
     (case d of
        None \<Rightarrow> None
      | Some t0 \<Rightarrow>
          (let t = LocalTime tz t0
           in TimeClip (UTC tz (MakeDate
                (MakeDay (intnum (YearFromTime t)) (intnum (MonthFromTime t)) date)
                (Some (TimeWithinDay t))))))"

definition setMonth :: "timezone \<Rightarrow> timevalue \<Rightarrow> number \<Rightarrow> timevalue" where
  "setMonth tz d month =
     (case d of
        None \<Rightarrow> None
      | Some t0 \<Rightarrow>
          (let t = LocalTime tz t0
           in TimeClip (UTC tz (MakeDate
                (MakeDay (intnum (YearFromTime t)) month (intnum (DateFromTime t)))
                (Some (TimeWithinDay t))))))"

definition setFullYear :: "timezone \<Rightarrow> timevalue \<Rightarrow> number \<Rightarrow> timevalue" where
  \<comment> \<open>on an invalid Date the fields are those of the epoch\<close>
  "setFullYear tz d year =
     (let t = (case d of None \<Rightarrow> 0 | Some t0 \<Rightarrow> LocalTime tz t0)
      in TimeClip (UTC tz (MakeDate
           (MakeDay year (intnum (MonthFromTime t)) (intnum (DateFromTime t)))
           (Some (TimeWithinDay t)))))"

section \<open>The library: \<^verbatim>\<open>src/index.ts\<close>\<close>

text \<open>
  The type \<^verbatim>\<open>DurationUnit\<close> is a union of seven string literals, erased when the
  program runs: a unit is a string, and the functions below meet any string.
\<close>

definition DurationUnit :: "string list" where
  "DurationUnit = [''second'', ''minute'', ''hour'', ''day'', ''week'', ''month'', ''year'']"

datatype error = Error string

subsection \<open>Addition and subtraction\<close>

text \<open>
  Each function but \<^verbatim>\<open>addWeeks\<close> copies its Date (\<^verbatim>\<open>new Date(date)\<close> takes the time
  value over as it is) and sets one field of the copy; the result is the time value of the
  Date returned.
\<close>

definition addSeconds :: "timezone \<Rightarrow> timevalue \<Rightarrow> number \<Rightarrow> timevalue" where
  "addSeconds tz date seconds =
     (let result = date
      in setSeconds tz result (plus_number (num (getSeconds tz result)) seconds))"

definition addMinutes :: "timezone \<Rightarrow> timevalue \<Rightarrow> number \<Rightarrow> timevalue" where
  "addMinutes tz date minutes =
     (let result = date
      in setMinutes tz result (plus_number (num (getMinutes tz result)) minutes))"

definition addHours :: "timezone \<Rightarrow> timevalue \<Rightarrow> number \<Rightarrow> timevalue" where
  "addHours tz date hours =
     (let result = date
      in setHours tz result (plus_number (num (getHours tz result)) hours))"

definition addDays :: "timezone \<Rightarrow> timevalue \<Rightarrow> number \<Rightarrow> timevalue" where
  "addDays tz date days =
     (let result = date
      in setDate tz result (plus_number (num (getDate tz result)) days))"

definition addWeeks :: "timevalue \<Rightarrow> number \<Rightarrow> timevalue" where
  "addWeeks date weeks =
     (let millisecondsInWeek = intnum (7 * 24 * 60 * 60 * 1000)
      in newDate (plus_number (num (getTime date)) (times_number weeks millisecondsInWeek)))"

definition addMonths :: "timezone \<Rightarrow> timevalue \<Rightarrow> number \<Rightarrow> timevalue" where
  "addMonths tz date months =
     (let result = date
      in setMonth tz result (plus_number (num (getMonth tz result)) months))"

definition addYears :: "timezone \<Rightarrow> timevalue \<Rightarrow> number \<Rightarrow> timevalue" where
  "addYears tz date years =
     (let result = date
      in setFullYear tz result (plus_number (num (getFullYear tz result)) years))"

definition subtractSeconds :: "timezone \<Rightarrow> timevalue \<Rightarrow> number \<Rightarrow> timevalue" where
  "subtractSeconds tz date seconds = addSeconds tz date (negate_number seconds)"

definition subtractMinutes :: "timezone \<Rightarrow> timevalue \<Rightarrow> number \<Rightarrow> timevalue" where
  "subtractMinutes tz date minutes = addMinutes tz date (negate_number minutes)"

definition subtractHours :: "timezone \<Rightarrow> timevalue \<Rightarrow> number \<Rightarrow> timevalue" where
  "subtractHours tz date hours = addHours tz date (negate_number hours)"

definition subtractDays :: "timezone \<Rightarrow> timevalue \<Rightarrow> number \<Rightarrow> timevalue" where
  "subtractDays tz date days = addDays tz date (negate_number days)"

definition subtractWeeks :: "timevalue \<Rightarrow> number \<Rightarrow> timevalue" where
  "subtractWeeks date weeks = addWeeks date (negate_number weeks)"

definition subtractMonths :: "timezone \<Rightarrow> timevalue \<Rightarrow> number \<Rightarrow> timevalue" where
  "subtractMonths tz date months = addMonths tz date (negate_number months)"

definition subtractYears :: "timezone \<Rightarrow> timevalue \<Rightarrow> number \<Rightarrow> timevalue" where
  "subtractYears tz date years = addYears tz date (negate_number years)"

subsection \<open>Durations\<close>

definition secondsBetween :: "timevalue \<Rightarrow> timevalue \<Rightarrow> number" where
  "secondsBetween firstDate secondDate =
     (let msPerSecond = intnum 1000
      in Math_abs (divide_number
           (minus_number (num (getTime secondDate)) (num (getTime firstDate))) msPerSecond))"

definition minutesBetween :: "timevalue \<Rightarrow> timevalue \<Rightarrow> number" where
  "minutesBetween firstDate secondDate =
     (let msPerMinute = intnum (60 * 1000)
      in Math_abs (divide_number
           (minus_number (num (getTime secondDate)) (num (getTime firstDate))) msPerMinute))"

definition hoursBetween :: "timevalue \<Rightarrow> timevalue \<Rightarrow> number" where
  "hoursBetween firstDate secondDate =
     (let msPerHour = intnum (60 * 60 * 1000)
      in Math_abs (divide_number
           (minus_number (num (getTime secondDate)) (num (getTime firstDate))) msPerHour))"

definition daysBetween :: "timevalue \<Rightarrow> timevalue \<Rightarrow> number" where
  "daysBetween firstDate secondDate =
     (let msPerDay = intnum (24 * 60 * 60 * 1000)
      in Math_abs (divide_number
           (minus_number (num (getTime secondDate)) (num (getTime firstDate))) msPerDay))"

definition weeksBetween :: "timevalue \<Rightarrow> timevalue \<Rightarrow> number" where
  "weeksBetween firstDate secondDate =
     (let millisecondsInWeek = intnum (7 * 24 * 60 * 60 * 1000);
          diffInMilliseconds = minus_number (num (getTime secondDate)) (num (getTime firstDate))
      in Math_abs (Math_round (divide_number diffInMilliseconds millisecondsInWeek)))"

definition monthsBetween :: "timezone \<Rightarrow> timevalue \<Rightarrow> timevalue \<Rightarrow> number" where
  "monthsBetween tz firstDate secondDate =
     Math_abs (num (plus_field
       (times_field
          (minus_field (getFullYear tz secondDate) (getFullYear tz firstDate))
          (Some 12))
       (minus_field (getMonth tz secondDate) (getMonth tz firstDate))))"

definition yearsBetween :: "timezone \<Rightarrow> timevalue \<Rightarrow> timevalue \<Rightarrow> number" where
  "yearsBetween tz firstDate secondDate =
     Math_abs (num (minus_field (getFullYear tz secondDate) (getFullYear tz firstDate)))"

definition unitCalculators ::
  "timezone \<Rightarrow> (string \<times> (timevalue \<Rightarrow> timevalue \<Rightarrow> number)) list" where
  "unitCalculators tz =
     [(''second'', secondsBetween),
      (''minute'', minutesBetween),
      (''hour'', hoursBetween),
      (''day'', daysBetween),
      (''week'', weeksBetween),
      (''month'', monthsBetween tz),
      (''year'', yearsBetween tz)]"

definition calculateDuration ::
  "timezone \<Rightarrow> timevalue \<Rightarrow> timevalue \<Rightarrow> string \<Rightarrow> error + number" where
  "calculateDuration tz firstDate secondDate unit =
     (case map_of (unitCalculators tz) unit of
        None \<Rightarrow> Inl (Error (''Unknown unit: '' @ unit))
      | Some calculator \<Rightarrow>
          (let formattedResult = toFixed 2 (calculator firstDate secondDate)
           in Inr (Number formattedResult)))"

subsection \<open>Comparisons by unit\<close>

text \<open>
  \<^verbatim>\<open>hasSame\<close>, \<^verbatim>\<open>hasBefore\<close> and \<^verbatim>\<open>hasAfter\<close> write to the Dates they are given.
  A Date object is a reference into a store of time values, so that the two arguments
  may be one object; each function returns its result or the error it throws, and the
  store it leaves.

  The three functions each declare the same local function \<^verbatim>\<open>firstDayOfWeek\<close>, which is
  one definition here. It returns either the Date it was given or a new Date; its callers
  read the time of the returned Date at once, before anything else is written, so the model
  returns that time value.
\<close>

type_synonym ref = nat
type_synonym store = "ref \<Rightarrow> timevalue"

definition firstDayOfWeek :: "timezone \<Rightarrow> ref \<Rightarrow> store \<Rightarrow> int option \<times> store" where
  "firstDayOfWeek tz date s =
     (let dayOfWeek = (case getDay tz (s date) of
                         None \<Rightarrow> 7
                       | Some w \<Rightarrow> if w = 0 then 7 else w)
      in if dayOfWeek = 1 then (getTime (s date), s)
         else
           (let diff = plus_field
                         (minus_field (getDate tz (s date)) (Some dayOfWeek))
                         (Some 1);
                u = setDate tz (s date) (num diff)
            in (getTime (newDate (num u)), s(date := u))))"

definition hasSame ::
  "timezone \<Rightarrow> ref \<Rightarrow> ref \<Rightarrow> string \<Rightarrow> store \<Rightarrow> (error + bool) \<times> store" where
  "hasSame tz firstDate secondDate unit s =
     (if unit = ''year'' then
        (Inr (strict_equal (getFullYear tz (s firstDate)) (getFullYear tz (s secondDate))), s)
      else if unit = ''month'' then
        (Inr (strict_equal (getMonth tz (s firstDate)) (getMonth tz (s secondDate))), s)
      else if unit = ''day'' then
        (Inr (strict_equal (getDate tz (s firstDate)) (getDate tz (s secondDate))), s)
      else if unit = ''hour'' then
        (Inr (strict_equal (getHours tz (s firstDate)) (getHours tz (s secondDate))), s)
      else if unit = ''minute'' then
        (Inr (strict_equal (getMinutes tz (s firstDate)) (getMinutes tz (s secondDate))), s)
      else if unit = ''second'' then
        (Inr (strict_equal (getSeconds tz (s firstDate)) (getSeconds tz (s secondDate))), s)
      else if unit = ''week'' then
        (let (t1, s1) = firstDayOfWeek tz firstDate s;
             (t2, s2) = firstDayOfWeek tz secondDate s1
         in (Inr (strict_equal t1 t2), s2))
      else (Inl (Error (''Invalid unit: '' @ unit)), s))"

definition hasBefore ::
  "timezone \<Rightarrow> ref \<Rightarrow> ref \<Rightarrow> string \<Rightarrow> store \<Rightarrow> (error + bool) \<times> store" where
  "hasBefore tz firstDate secondDate unit s =
     (if unit = ''year'' then
        (Inr (less_than (getFullYear tz (s firstDate)) (getFullYear tz (s secondDate))), s)
      else if unit = ''month'' then
        (Inr (less_than (getMonth tz (s firstDate)) (getMonth tz (s secondDate))), s)
      else if unit = ''day'' then
        (Inr (less_than (getDate tz (s firstDate)) (getDate tz (s secondDate))), s)
      else if unit = ''hour'' then
        (Inr (less_than (getHours tz (s firstDate)) (getHours tz (s secondDate))), s)
      else if unit = ''minute'' then
        (Inr (less_than (getMinutes tz (s firstDate)) (getMinutes tz (s secondDate))), s)
      else if unit = ''second'' then
        (Inr (less_than (getSeconds tz (s firstDate)) (getSeconds tz (s secondDate))), s)
      else if unit = ''week'' then
        (let (t1, s1) = firstDayOfWeek tz firstDate s;
             (t2, s2) = firstDayOfWeek tz secondDate s1
         in (Inr (less_than t1 t2), s2))
      else (Inl (Error (''Invalid unit: '' @ unit)), s))"

definition hasAfter ::
  "timezone \<Rightarrow> ref \<Rightarrow> ref \<Rightarrow> string \<Rightarrow> store \<Rightarrow> (error + bool) \<times> store" where
  "hasAfter tz firstDate secondDate unit s =
     (if unit = ''year'' then
        (Inr (greater_than (getFullYear tz (s firstDate)) (getFullYear tz (s secondDate))), s)
      else if unit = ''month'' then
        (Inr (greater_than (getMonth tz (s firstDate)) (getMonth tz (s secondDate))), s)
      else if unit = ''day'' then
        (Inr (greater_than (getDate tz (s firstDate)) (getDate tz (s secondDate))), s)
      else if unit = ''hour'' then
        (Inr (greater_than (getHours tz (s firstDate)) (getHours tz (s secondDate))), s)
      else if unit = ''minute'' then
        (Inr (greater_than (getMinutes tz (s firstDate)) (getMinutes tz (s secondDate))), s)
      else if unit = ''second'' then
        (Inr (greater_than (getSeconds tz (s firstDate)) (getSeconds tz (s secondDate))), s)
      else if unit = ''week'' then
        (let (t1, s1) = firstDayOfWeek tz firstDate s;
             (t2, s2) = firstDayOfWeek tz secondDate s1
         in (Inr (greater_than t1 t2), s2))
      else (Inl (Error (''Invalid unit: '' @ unit)), s))"

section \<open>Notions of the specification\<close>

definition utc :: timezone where
  \<comment> \<open>a host whose local time is UTC\<close>
  "utc t isUTC = 0"

definition fixedOffset :: "timezone \<Rightarrow> bool" where
  \<comment> \<open>a zone without transitions: one offset at every time\<close>
  "fixedOffset tz \<longleftrightarrow> (\<forall>t b. tz t b = tz 0 True)"

definition springForward :: timezone where
  \<comment> \<open>a zone five hours behind UTC that moves its clocks one hour forward at
      2024-03-10T07:00:00Z, from 02:00 to 03:00 local time; a local time that the change
      skips is read with the offset before the change\<close>
  "springForward t isUTC =
     (if isUTC then (if t < 1710054000000 then - 18000000 else - 14400000)
      else (if t < 1710039600000 then - 18000000 else - 14400000))"

definition validInstant :: "int \<Rightarrow> bool" where
  \<comment> \<open>the time values a Date can hold\<close>
  "validInstant t \<longleftrightarrow> \<bar>t\<bar> \<le> maxTimeValue"

definition utcOf :: "timezone \<Rightarrow> int \<Rightarrow> int" where
  \<comment> \<open>the time value that the host reads the local time \<open>l\<close> as\<close>
  "utcOf tz l = l - tz l False"

definition shifted :: "timezone \<Rightarrow> int \<Rightarrow> int \<Rightarrow> int" where
  \<comment> \<open>the time value at the local time of \<open>d\<close> moved by \<open>k\<close> milliseconds\<close>
  "shifted tz d k = utcOf tz (LocalTime tz d + k)"

definition plainShift :: "timezone \<Rightarrow> int \<Rightarrow> int \<Rightarrow> bool" where
  \<comment> \<open>the host reads the local time of \<open>d\<close> as \<open>d\<close> (no change of the clock repeats it
      before \<open>d\<close>); the local time of \<open>d\<close> moved by \<open>k\<close> milliseconds is the local time of
      the time value that the host reads it as (no change of the clock skips it); and that
      time value is one a Date can hold\<close>
  "plainShift tz d k \<longleftrightarrow>
     utcOf tz (LocalTime tz d) = d
     \<and> LocalTime tz (shifted tz d k) = LocalTime tz d + k
     \<and> validInstant (shifted tz d k)"

definition isoWeek :: "timezone \<Rightarrow> int \<Rightarrow> int" where
  \<comment> \<open>the number of the Monday-to-Sunday week of local time that holds \<open>t\<close>, counted
      from the week of the epoch (day 0 was a Thursday, its Monday day \<open>- 3\<close>)\<close>
  "isoWeek tz t = (Day (LocalTime tz t) + 3) div 7"

definition mondayOf :: "timezone \<Rightarrow> int \<Rightarrow> int" where
  \<comment> \<open>the same time of day on the Monday of the week of \<open>t\<close>\<close>
  "mondayOf tz t = t - ((WeekDay (LocalTime tz t) + 6) mod 7) * msPerDay"

definition unitField :: "string \<Rightarrow> timezone \<Rightarrow> int \<Rightarrow> int" where
  \<comment> \<open>the one calendar field that a unit names\<close>
  "unitField unit tz t =
     (let l = LocalTime tz t
      in if unit = ''year'' then YearFromTime l
         else if unit = ''month'' then MonthFromTime l
         else if unit = ''day'' then DateFromTime l
         else if unit = ''hour'' then HourFromTime l
         else if unit = ''minute'' then MinFromTime l
         else SecFromTime l)"



subsection \<open>Example inputs\<close>

definition wed_and_sun :: store where
  \<comment> \<open>two Dates: Wednesday 2023-01-04T00:00:00Z and Sunday 2023-01-01T00:00:00Z\<close>
  "wed_and_sun = (\<lambda>r. None)(0 := Some 1672790400000, 1 := Some 1672531200000)"

definition tue_and_wed :: store where
  \<comment> \<open>two Dates of one week: Tuesday 2023-01-03T10:00:00Z and Wednesday 2023-01-04T11:00:00Z\<close>
  "tue_and_wed = (\<lambda>r. None)(0 := Some 1672740000000, 1 := Some 1672830000000)"

definition decembers :: store where
  \<comment> \<open>two Dates of the same month in different years: 2022-12-15T00:00:00Z and
      2023-12-25T00:00:00Z\<close>
  "decembers = (\<lambda>r. None)(0 := Some 1671062400000, 1 := Some 1703462400000)"

section \<open>Unfolding the model\<close>

lemmas number_defs = num_def intnum_def plus_number_def minus_number_def times_number_def
  divide_number_def negate_number_def Math_abs_def Math_round_def

lemmas field_defs = plus_field_def minus_field_def times_field_def

lemmas compare_defs = strict_equal_def less_than_def greater_than_def

lemmas getter_defs = getTime_def getFullYear_def getMonth_def getDate_def getDay_def
  getHours_def getMinutes_def getSeconds_def

lemma calculateDuration_unfold:
  "calculateDuration tz firstDate secondDate unit =
     (case map_of (unitCalculators tz) unit of
        None \<Rightarrow> Inl (Error (''Unknown unit: '' @ unit))
      | Some calculator \<Rightarrow> Inr (Number (toFixed 2 (calculator firstDate secondDate))))"
  by (simp add: calculateDuration_def Let_def split: option.split)

section \<open>Facts about doubles\<close>

text \<open>
  Rounding commutes with negation and at most doubles a magnitude; an integer up to
  \<open>2 ^ 53\<close>, and an even one below \<open>2 ^ 54\<close>, is a double.
\<close>

lemma pow2_pos: "0 < pow2 e"
  by (simp add: pow2_def)

lemma roundTiesToEven_of_int: "roundTiesToEven (of_int k) = k"
  by (simp add: roundTiesToEven_def)


lemma roundTiesToEven_uminus: "roundTiesToEven (- x) = - roundTiesToEven x"
proof (cases "x = of_int \<lfloor>x\<rfloor>")
  case True
  then obtain k where "x = of_int k" ..
  then have "- x = of_int (- k)" by simp
  then show ?thesis using \<open>x = of_int k\<close> by (simp only: roundTiesToEven_of_int)
next
  case False
  define f where "f = \<lfloor>x\<rfloor>"
  have f: "of_int f < x" "x < of_int f + 1"
    using False unfolding f_def by linarith+
  then have n: "\<lfloor>- x\<rfloor> = - f - 1" by linarith
  have e: "even (- f - 1) \<longleftrightarrow> odd f" by simp
  show ?thesis
    unfolding roundTiesToEven_def Let_def n f_def[symmetric] e
    using f by (auto simp add: field_simps)
qed

lemma exponent_uminus: "exponent (- q) = exponent q"
  by (simp add: exponent_def)

lemma double_uminus: "double (- q) = - double q"
  using roundTiesToEven_uminus[of "q / pow2 (max (exponent q) (- 1022) - 52)"]
  by (simp add: double_def exponent_uminus Let_def)


lemma double_exactI:
  assumes "q \<noteq> 0" and "q / pow2 (max (exponent q) (- 1022) - 52) = of_int k"
  shows "double q = q"
proof -
  define u where "u = pow2 (max (exponent q) (- 1022) - 52)"
  have u: "u \<noteq> 0" using pow2_pos[of "max (exponent q) (- 1022) - 52"] by (simp add: u_def)
  have q: "q = of_int k * u" using assms(2) u by (simp add: u_def field_simps)
  have "double q = of_int (roundTiesToEven (q / u)) * u"
    using assms(1) by (simp add: double_def Let_def u_def)
  also have "q / u = of_int k" using assms(2) by (simp add: u_def)
  finally show ?thesis by (simp add: roundTiesToEven_of_int q)
qed

lemma exponent_of_int:
  assumes "z \<noteq> 0"
  shows "exponent (of_int z) = bitlen \<bar>z\<bar> - 1"
proof -
  have "1 \<le> \<bar>of_int z :: rat\<bar>" using assms by (simp flip: of_int_abs)
  moreover have "\<lfloor>\<bar>of_int z :: rat\<bar>\<rfloor> = \<bar>z\<bar>" by (simp flip: of_int_abs)
  ultimately show ?thesis by (simp add: exponent_def)
qed

lemma double_of_int_small:
  assumes "\<bar>z\<bar> < 2 ^ 53"
  shows "double (of_int z) = of_int z"
proof (cases "z = 0")
  case True
  then show ?thesis by (simp add: double_def)
next
  case False
  define e where "e = bitlen \<bar>z\<bar> - 1"
  have "bitlen \<bar>z\<bar> \<le> 53" using assms by (simp add: bitlen_le_iff_power)
  moreover have "1 \<le> bitlen \<bar>z\<bar>" using False by (simp add: bitlen_ge_iff_power)
  ultimately have e: "0 \<le> e" "e \<le> 52" by (simp_all add: e_def)
  then have m: "max e (- 1022) = e" by simp
  have "e - 52 = - (52 - e)" by simp
  then have p: "pow2 (e - 52) = 1 / 2 ^ nat (52 - e)"
    using e by (cases "e = 52") (simp_all add: pow2_def)
  have "of_int z / pow2 (max (exponent (of_int z)) (- 1022) - 52)
      = (of_int (z * 2 ^ nat (52 - e)) :: rat)"
    unfolding exponent_of_int[OF False] e_def[symmetric] m p by simp
  moreover have "of_int z \<noteq> (0::rat)" using False by simp
  ultimately show ?thesis by (rule double_exactI[rotated])
qed

lemma double_of_int_even:
  assumes "even z" and "\<bar>z\<bar> < 18014398509481984"
  shows "double (of_int z) = of_int z"
proof (cases "\<bar>z\<bar> < 2 ^ 53")
  case True
  then show ?thesis by (rule double_of_int_small)
next
  case False
  then have z: "z \<noteq> 0" by auto
  have "\<bar>z\<bar> < 2 ^ nat 54" using assms(2) by simp
  then have "bitlen \<bar>z\<bar> \<le> 54" by (simp only: bitlen_le_iff_power) simp
  moreover have "2 ^ (nat 54 - 1) \<le> \<bar>z\<bar>" using False by simp
  then have "54 \<le> bitlen \<bar>z\<bar>" by (simp only: bitlen_ge_iff_power) simp
  ultimately have e: "bitlen \<bar>z\<bar> - 1 = 53" by simp
  obtain k where k: "z = 2 * k" using assms(1) by (elim evenE)
  have "pow2 (max 53 (- 1022) - 52) = 2" by (simp add: pow2_def)
  then have "of_int z / pow2 (max (exponent (of_int z)) (- 1022) - 52) = (of_int k :: rat)"
    unfolding exponent_of_int[OF z] e by (simp add: k)
  moreover have "of_int z \<noteq> (0::rat)" using z by simp
  ultimately show ?thesis by (rule double_exactI[rotated])
qed

lemma double_of_int:
  assumes "\<bar>z\<bar> \<le> 9007199254740992"
  shows "double (of_int z) = of_int z"
proof (cases "\<bar>z\<bar> < 2 ^ 53")
  case True
  then show ?thesis by (rule double_of_int_small)
next
  case False
  with assms have "\<bar>z\<bar> = 9007199254740992" by simp
  then have "z = 9007199254740992 \<or> z = - 9007199254740992" by linarith
  then have "even z" by auto
  moreover have "\<bar>z\<bar> < 18014398509481984" using assms by simp
  ultimately show ?thesis by (rule double_of_int_even)
qed

lemma exponent_less:
  assumes "\<bar>r\<bar> < 36028797018963968"
  shows "exponent r < 1024"
proof (cases "1 \<le> \<bar>r\<bar>")
  case True
  have "\<lfloor>\<bar>r\<bar>\<rfloor> < 2 ^ nat 55" using assms by (simp add: floor_less_iff)
  then have "bitlen \<lfloor>\<bar>r\<bar>\<rfloor> \<le> 55" by (simp only: bitlen_le_iff_power) simp
  then show ?thesis using True by (simp add: exponent_def)
next
  case False
  then show ?thesis using bitlen_nonneg[of "\<lceil>1 / \<bar>r\<bar>\<rceil> - 1"] by (simp add: exponent_def)
qed

lemma ieee_exact:
  assumes "double q = q" and "\<bar>q\<bar> < 18014398509481984"
  shows "ieee q = Some q"
proof -
  have "exponent q < 1024" using assms(2) by (intro exponent_less) simp
  then show ?thesis by (simp only: ieee_def Let_def assms(1) if_True)
qed

lemma ieee_of_int:
  assumes "\<bar>z\<bar> \<le> 9007199254740992"
  shows "ieee (of_int z) = Some (of_int z)"
proof -
  have "\<bar>of_int z :: rat\<bar> = of_int \<bar>z\<bar>" by simp
  also have "\<dots> < 18014398509481984" using assms by linarith
  finally show ?thesis using double_of_int[OF assms] by (intro ieee_exact)
qed

lemma ieee_of_int_even:
  assumes "even z" and "\<bar>z\<bar> < 18014398509481984"
  shows "ieee (of_int z) = Some (of_int z)"
proof -
  have "\<bar>of_int z :: rat\<bar> = of_int \<bar>z\<bar>" by simp
  also have "\<dots> < 18014398509481984" using assms(2) by linarith
  finally show ?thesis using double_of_int_even[OF assms] by (intro ieee_exact)
qed


lemma ieee_uminus: "ieee (- q) = map_option uminus (ieee q)"
  by (simp add: ieee_def double_uminus exponent_uminus Let_def)

section \<open>Facts about the calendar of the host\<close>

text \<open>
  The fields of a time value add up to it, and \<open>MakeDay\<close> on the year, the month and
  the date of a time value, the date moved by \<open>n\<close>, is its day number moved by \<open>n\<close>.
\<close>

lemma div_bounds:
  fixes x m :: int
  assumes "0 < m"
  shows "m * (x div m) \<le> x" and "x < m * (x div m) + m"
proof -
  have "x = m * (x div m) + x mod m" by simp
  moreover have "0 \<le> x mod m" "x mod m < m" using assms by simp_all
  ultimately show "m * (x div m) \<le> x" and "x < m * (x div m) + m" by linarith+
qed

lemma time_fields:
  "Day t * msPerDay
     + (HourFromTime t * msPerHour + MinFromTime t * msPerMinute
        + SecFromTime t * msPerSecond + msFromTime t) = t"
proof -
  define s where "s = t div 1000"
  define m where "m = s div 60"
  define h where "h = m div 60"
  have m: "t div 60000 = m" unfolding m_def s_def by (simp add: zdiv_zmult2_eq[symmetric])
  have h: "t div 3600000 = h"
    unfolding h_def m[symmetric] by (simp add: zdiv_zmult2_eq[symmetric])
  have d: "t div 86400000 = h div 24"
    unfolding h[symmetric] by (simp add: zdiv_zmult2_eq[symmetric])
  have "t = 1000 * s + t mod 1000" unfolding s_def by simp
  moreover have "s = 60 * m + s mod 60" unfolding m_def by simp
  moreover have "m = 60 * h + m mod 60" unfolding h_def by simp
  moreover have "h = 24 * (h div 24) + h mod 24" by simp
  ultimately have "t = (h div 24) * 86400000 + (h mod 24 * 3600000 + m mod 60 * 60000
      + s mod 60 * 1000 + t mod 1000)" by linarith
  then show ?thesis
    unfolding Day_def HourFromTime_def MinFromTime_def SecFromTime_def msFromTime_def
      msPerDay_def msPerHour_def msPerMinute_def msPerSecond_def m h d
    unfolding s_def[symmetric] by simp
qed

lemma day_and_time_within_day: "Day t * msPerDay + TimeWithinDay t = t"
  by (simp add: Day_def TimeWithinDay_def)

lemma MonthFromTime_range: "0 \<le> MonthFromTime t \<and> MonthFromTime t \<le> 11"
  by (simp add: MonthFromTime_def Let_def)

lemma month_table:
  fixes d l :: int
  shows "(if d < 31 then d + 1 - 1
          else if d < 59 + l then 31 + (d - 30) - 1
          else if d < 90 + l then 59 + l + (d - 58 - l) - 1
          else if d < 120 + l then 90 + l + (d - 89 - l) - 1
          else if d < 151 + l then 120 + l + (d - 119 - l) - 1
          else if d < 181 + l then 151 + l + (d - 150 - l) - 1
          else if d < 212 + l then 181 + l + (d - 180 - l) - 1
          else if d < 243 + l then 212 + l + (d - 211 - l) - 1
          else if d < 273 + l then 243 + l + (d - 242 - l) - 1
          else if d < 304 + l then 273 + l + (d - 272 - l) - 1
          else if d < 334 + l then 304 + l + (d - 303 - l) - 1
          else 334 + l + (d - 333 - l) - 1) = d"
  by simp

lemma days_before_month:
  "DaysBeforeMonth (YearFromTime t) (MonthFromTime t) + DateFromTime t - 1 = DayWithinYear t"
proof -
  define d where "d = DayWithinYear t"
  define l where "l = InLeapYear t"
  have l: "(if DaysInYear (YearFromTime t) = 366 then 1 else 0) = l"
    by (simp add: l_def InLeapYear_def)
  show ?thesis
    unfolding DaysBeforeMonth_def DateFromTime_def MonthFromTime_def Let_def l
    unfolding d_def[symmetric] l_def[symmetric]
    by (simp split: if_splits)
qed

lemma ToIntegerOrInfinity_of_int: "ToIntegerOrInfinity (of_int i) = i"
  by (simp add: ToIntegerOrInfinity_def)

lemma ToIntegerOrInfinity_of_int_add: "ToIntegerOrInfinity (of_int i + of_int j) = i + j"
  using ToIntegerOrInfinity_of_int[of "i + j"] by simp

lemma MakeDay_fields:
  "MakeDay (intnum (YearFromTime t)) (intnum (MonthFromTime t)) (intnum (DateFromTime t + n))
     = Some (Day t + n)"
proof -
  have m: "MonthFromTime t div 12 = 0" "MonthFromTime t mod 12 = MonthFromTime t"
    using MonthFromTime_range[of t] by simp_all
  have "DayFromYear (YearFromTime t) + DaysBeforeMonth (YearFromTime t) (MonthFromTime t)
      + (DateFromTime t + n) - 1 = Day t + n"
    using days_before_month[of t] by (simp add: DayWithinYear_def)
  then show ?thesis
    by (simp add: MakeDay_def intnum_def ToIntegerOrInfinity_of_int
        ToIntegerOrInfinity_of_int_add m Let_def)
qed

text \<open>
  The definitions above meet what the standard asks of them: \<open>YearFromTime t\<close> is the
  largest year that starts no later than \<open>t\<close>, a year is followed by the next after
  \<open>DaysInYear\<close> days, and the day that \<open>MakeDay\<close> starts from is the first of the
  month asked for.
\<close>

lemma DayFromYear_bounds:
  "146097 * (y - 1970) - 800 \<le> 400 * DayFromYear y"
  "400 * DayFromYear y \<le> 146097 * (y - 1970) + 800"
proof -
  define a where "a = (y - 1969) div 4"
  define b where "b = (y - 1901) div 100"
  define c where "c = (y - 1601) div 400"
  have ha: "4 * a \<le> y - 1969" "y - 1969 < 4 * a + 4"
    unfolding a_def by (rule div_bounds, simp)+
  have hb: "100 * b \<le> y - 1901" "y - 1901 < 100 * b + 100"
    unfolding b_def by (rule div_bounds, simp)+
  have hc: "400 * c \<le> y - 1601" "y - 1601 < 400 * c + 400"
    unfolding c_def by (rule div_bounds, simp)+
  have e: "DayFromYear y = 365 * (y - 1970) + a - b + c"
    by (simp add: DayFromYear_def a_def b_def c_def)
  show "146097 * (y - 1970) - 800 \<le> 400 * DayFromYear y"
    unfolding e using ha hb hc by (simp add: algebra_simps)
  show "400 * DayFromYear y \<le> 146097 * (y - 1970) + 800"
    unfolding e using ha hb hc by (simp add: algebra_simps)
qed

lemma YearFromTime_spec:
  "DayFromYear (YearFromTime t) \<le> Day t \<and> Day t < DayFromYear (YearFromTime t + 1)"
proof -
  define d where "d = Day t"
  define q where "q = (400 * d) div 146097"
  define y where "y = 1970 + q"
  have a: "146097 * q \<le> 400 * d" "400 * d < 146097 * q + 146097"
    unfolding q_def by (rule div_bounds, simp)+
  note b = DayFromYear_bounds[of "y - 1"] DayFromYear_bounds[of y]
    DayFromYear_bounds[of "y + 1"] DayFromYear_bounds[of "y + 2"]
  have y: "YearFromTime t = (if d < DayFromYear y then y - 1
         else if DayFromYear (y + 1) \<le> d then y + 1 else y)"
    by (simp add: YearFromTime_def Let_def y_def q_def d_def)
  have "q = y - 1970" by (simp add: y_def)
  with a have a': "146097 * (y - 1970) \<le> 400 * d" "400 * d < 146097 * (y - 1970) + 146097"
    by simp_all
  consider "d < DayFromYear y" | "DayFromYear y \<le> d" "DayFromYear (y + 1) \<le> d"
    | "DayFromYear y \<le> d" "d < DayFromYear (y + 1)" by linarith
  then have "DayFromYear (YearFromTime t) \<le> d \<and> d < DayFromYear (YearFromTime t + 1)"
  proof cases
    case 1
    then have "YearFromTime t = y - 1" by (simp add: y)
    moreover have "DayFromYear (y - 1) \<le> d" using a' b by (simp add: algebra_simps)
    ultimately show ?thesis using 1 by simp
  next
    case 2
    then have "YearFromTime t = y + 1" by (simp add: y)
    moreover have "d < DayFromYear (y + 2)" using a' b by (simp add: algebra_simps)
    ultimately show ?thesis using 2 by (simp add: add.assoc)
  next
    case 3
    then have "YearFromTime t = y" by (simp add: y)
    then show ?thesis using 3 by simp
  qed
  then show ?thesis by (simp add: d_def)
qed

lemma DayFromYear_step: "DayFromYear y < DayFromYear (y + 1)"
proof -
  have "400 * DayFromYear y < 400 * DayFromYear (y + 1)"
    using DayFromYear_bounds(2)[of y] DayFromYear_bounds(1)[of "y + 1"]
    by (simp add: algebra_simps)
  then show ?thesis by simp
qed

lemma DayFromYear_mono: "y \<le> z \<Longrightarrow> DayFromYear y \<le> DayFromYear z"
proof (induction "nat (z - y)" arbitrary: z)
  case 0
  then show ?case by simp
next
  case (Suc n)
  then have "n = nat (z - 1 - y)" "y \<le> z - 1" by linarith+
  then have "DayFromYear y \<le> DayFromYear (z - 1)" using Suc.hyps(1) by blast
  then show ?case using DayFromYear_step[of "z - 1"] by simp
qed

lemma YearFromTime_largest:
  assumes "DayFromYear y \<le> Day t"
  shows "y \<le> YearFromTime t"
proof (rule ccontr)
  assume "\<not> y \<le> YearFromTime t"
  then have "YearFromTime t + 1 \<le> y" by simp
  then have "DayFromYear (YearFromTime t + 1) \<le> DayFromYear y" by (rule DayFromYear_mono)
  then show False using YearFromTime_spec[of t] assms by linarith
qed

lemma div_next:
  fixes x m :: int
  assumes "1 < m"
  shows "(x + 1) div m = x div m + (if (x + 1) mod m = 0 then 1 else 0)"
proof -
  define q where "q = x div m"
  define r where "r = x mod m"
  have x: "x = m * q + r" and r: "0 \<le> r" "r < m"
    using assms by (simp_all add: q_def r_def)
  show ?thesis
  proof (cases "r = m - 1")
    case True
    then have e: "x + 1 = m * (q + 1) + 0" using x by (simp add: algebra_simps)
    have "(x + 1) div m = q + 1" by (rule int_div_pos_eq[OF e]) (use assms in simp_all)
    moreover have "(x + 1) mod m = 0" by (rule int_mod_pos_eq[OF e]) (use assms in simp_all)
    ultimately show ?thesis by (simp add: q_def)
  next
    case False
    then have e: "x + 1 = m * q + (r + 1)" and r': "0 \<le> r + 1" "r + 1 < m"
      using x r by simp_all
    have "(x + 1) div m = q" by (rule int_div_pos_eq[OF e r'])
    moreover have "(x + 1) mod m = r + 1" by (rule int_mod_pos_eq[OF e r'])
    ultimately show ?thesis using r by (simp add: q_def)
  qed
qed

lemma mod_shift:
  fixes y :: int
  shows "(y - 1969 + 1) mod 4 = y mod 4" "(y - 1901 + 1) mod 100 = y mod 100"
    "(y - 1601 + 1) mod 400 = y mod 400"
proof -
  have "y - 1969 + 1 = y + 4 * (- 492)" "y - 1901 + 1 = y + 100 * (- 19)"
    "y - 1601 + 1 = y + 400 * (- 4)" by simp_all
  then show "(y - 1969 + 1) mod 4 = y mod 4" "(y - 1901 + 1) mod 100 = y mod 100"
    "(y - 1601 + 1) mod 400 = y mod 400"
    by (simp_all only: mod_mult_self2)
qed

lemma mod_100_400:
  fixes y :: int
  shows "y mod 100 = 0 \<Longrightarrow> y mod 4 = 0" "y mod 400 = 0 \<Longrightarrow> y mod 100 = 0"
proof -
  have "y mod 100 mod 4 = y mod 4" by (rule mod_mod_cancel) simp
  then show "y mod 100 = 0 \<Longrightarrow> y mod 4 = 0" by simp
  have "y mod 400 mod 100 = y mod 100" by (rule mod_mod_cancel) simp
  then show "y mod 400 = 0 \<Longrightarrow> y mod 100 = 0" by simp
qed

lemma DayFromYear_next: "DayFromYear (y + 1) = DayFromYear y + DaysInYear y"
proof -
  have a: "(y + 1 - 1969) div 4 = (y - 1969) div 4 + (if y mod 4 = 0 then 1 else 0)"
    using div_next[of 4 "y - 1969"] by (simp only: mod_shift) (simp add: algebra_simps)
  have b: "(y + 1 - 1901) div 100 = (y - 1901) div 100 + (if y mod 100 = 0 then 1 else 0)"
    using div_next[of 100 "y - 1901"] by (simp only: mod_shift) (simp add: algebra_simps)
  have c: "(y + 1 - 1601) div 400 = (y - 1601) div 400 + (if y mod 400 = 0 then 1 else 0)"
    using div_next[of 400 "y - 1601"] by (simp only: mod_shift) (simp add: algebra_simps)
  show ?thesis
    unfolding DayFromYear_def DaysInYear_def a b c
    using mod_100_400[of y] by auto
qed

lemma DaysInYear_cases: "DaysInYear y = 365 \<or> DaysInYear y = 366"
  by (simp add: DaysInYear_def)

lemma YearFromTime_unique:
  assumes "DayFromYear y \<le> Day t" and "Day t < DayFromYear (y + 1)"
  shows "YearFromTime t = y"
proof -
  have "y \<le> YearFromTime t" using assms(1) by (rule YearFromTime_largest)
  moreover have "\<not> y + 1 \<le> YearFromTime t"
  proof
    assume "y + 1 \<le> YearFromTime t"
    then have "DayFromYear (y + 1) \<le> DayFromYear (YearFromTime t)" by (rule DayFromYear_mono)
    then show False using YearFromTime_spec[of t] assms(2) by linarith
  qed
  ultimately show ?thesis by linarith
qed

lemma DaysBeforeMonth_range:
  "0 \<le> DaysBeforeMonth y m \<and> DaysBeforeMonth y m < DaysInYear y"
  using DaysInYear_cases[of y] by (auto simp add: DaysBeforeMonth_def Let_def)

lemma MakeDay_first_of_month:
  assumes "0 \<le> m" and "m \<le> 11"
    and "Day t = DayFromYear y + DaysBeforeMonth y m"
  shows "YearFromTime t = y \<and> MonthFromTime t = m \<and> DateFromTime t = 1"
proof -
  have y: "YearFromTime t = y"
    using DaysBeforeMonth_range[of y m] assms(3)
    by (intro YearFromTime_unique) (simp_all add: DayFromYear_next)
  then have d: "DayWithinYear t = DaysBeforeMonth y m"
    using assms(3) by (simp add: DayWithinYear_def)
  have l: "InLeapYear t = (if DaysInYear y = 366 then 1 else 0)"
    by (simp add: InLeapYear_def y)
  have m: "m = 0 \<or> m = 1 \<or> m = 2 \<or> m = 3 \<or> m = 4 \<or> m = 5 \<or> m = 6 \<or> m = 7 \<or> m = 8
      \<or> m = 9 \<or> m = 10 \<or> m = 11"
    using assms(1,2) by presburger
  have month: "MonthFromTime t = m"
    unfolding MonthFromTime_def d l using m by (auto simp add: DaysBeforeMonth_def Let_def)
  have "DateFromTime t = 1"
    unfolding DateFromTime_def month d l using m by (auto simp add: DaysBeforeMonth_def Let_def)
  with y month show ?thesis by simp
qed

section \<open>Units outside and inside the closed set\<close>

lemma map_of_unitCalculators_None:
  "unit \<notin> set DurationUnit \<Longrightarrow> map_of (unitCalculators tz) unit = None"
  by (simp add: DurationUnit_def unitCalculators_def)

lemma map_of_unitCalculators_Some:
  "unit \<in> set DurationUnit \<Longrightarrow> \<exists>f. map_of (unitCalculators tz) unit = Some f"
  by (auto simp add: DurationUnit_def unitCalculators_def)

text \<open>
  Claim C4. A unit outside the seven of \<^verbatim>\<open>DurationUnit\<close> makes each of
  \<^verbatim>\<open>calculateDuration\<close>, \<^verbatim>\<open>hasSame\<close>, \<^verbatim>\<open>hasBefore\<close> and \<^verbatim>\<open>hasAfter\<close> throw an error that
  names the unit: there is no result and no unit is put in its place. The comparisons
  leave the store as it was.
\<close>

theorem unknown_unit_raises:
  assumes "unit \<notin> set DurationUnit"
  shows "calculateDuration tz a b unit = Inl (Error (''Unknown unit: '' @ unit))
    \<and> hasSame tz r1 r2 unit s = (Inl (Error (''Invalid unit: '' @ unit)), s)
    \<and> hasBefore tz r1 r2 unit s = (Inl (Error (''Invalid unit: '' @ unit)), s)
    \<and> hasAfter tz r1 r2 unit s = (Inl (Error (''Invalid unit: '' @ unit)), s)"
proof -
  have c: "calculateDuration tz a b unit = Inl (Error (''Unknown unit: '' @ unit))"
    using map_of_unitCalculators_None[OF assms] by (simp add: calculateDuration_unfold)
  have u: "unit \<noteq> ''year''" "unit \<noteq> ''month''" "unit \<noteq> ''day''" "unit \<noteq> ''hour''"
    "unit \<noteq> ''minute''" "unit \<noteq> ''second''" "unit \<noteq> ''week''"
    using assms by (auto simp add: DurationUnit_def)
  have "hasSame tz r1 r2 unit s = (Inl (Error (''Invalid unit: '' @ unit)), s)"
    unfolding hasSame_def using u by simp
  moreover have "hasBefore tz r1 r2 unit s = (Inl (Error (''Invalid unit: '' @ unit)), s)"
    unfolding hasBefore_def using u by simp
  moreover have "hasAfter tz r1 r2 unit s = (Inl (Error (''Invalid unit: '' @ unit)), s)"
    unfolding hasAfter_def using u by simp
  ultimately show ?thesis using c by simp
qed

theorem unknown_unit_raises_witness:
  "''century'' \<notin> set DurationUnit
   \<and> calculateDuration utc (Some 0) (Some 1000) ''century''
       = Inl (Error ''Unknown unit: century'')
   \<and> hasSame utc 0 1 ''century'' (\<lambda>r. Some 0)
       = (Inl (Error ''Invalid unit: century''), \<lambda>r. Some 0)
   \<and> hasBefore utc 0 1 ''century'' (\<lambda>r. Some 0)
       = (Inl (Error ''Invalid unit: century''), \<lambda>r. Some 0)
   \<and> hasAfter utc 0 1 ''century'' (\<lambda>r. Some 0)
       = (Inl (Error ''Invalid unit: century''), \<lambda>r. Some 0)"
proof -
  have h: "''century'' \<notin> set DurationUnit" by (simp add: DurationUnit_def)
  show ?thesis
    using h unknown_unit_raises[OF h, of utc "Some 0" "Some 1000" 0 1 "\<lambda>r. Some 0"] by simp
qed

text \<open>
  Claim C10. For each of the seven units the table \<^verbatim>\<open>unitCalculators\<close> has an entry, and
  none of \<^verbatim>\<open>calculateDuration\<close>, \<^verbatim>\<open>hasSame\<close>, \<^verbatim>\<open>hasBefore\<close> and \<^verbatim>\<open>hasAfter\<close> throws: each
  returns a value.
\<close>

theorem known_unit_never_raises:
  assumes "unit \<in> set DurationUnit"
  shows "(\<exists>f. map_of (unitCalculators tz) unit = Some f)
    \<and> (\<exists>v. calculateDuration tz a b unit = Inr v)
    \<and> (\<exists>r. fst (hasSame tz r1 r2 unit s) = Inr r)
    \<and> (\<exists>r. fst (hasBefore tz r1 r2 unit s) = Inr r)
    \<and> (\<exists>r. fst (hasAfter tz r1 r2 unit s) = Inr r)"
proof -
  obtain f where f: "map_of (unitCalculators tz) unit = Some f"
    using map_of_unitCalculators_Some[OF assms] by blast
  then have c: "\<exists>v. calculateDuration tz a b unit = Inr v"
    by (simp add: calculateDuration_unfold)
  have "\<exists>r. fst (hasSame tz r1 r2 unit s) = Inr r"
    unfolding hasSame_def using assms by (auto simp add: split_beta Let_def DurationUnit_def)
  moreover have "\<exists>r. fst (hasBefore tz r1 r2 unit s) = Inr r"
    unfolding hasBefore_def using assms by (auto simp add: split_beta Let_def DurationUnit_def)
  moreover have "\<exists>r. fst (hasAfter tz r1 r2 unit s) = Inr r"
    unfolding hasAfter_def using assms by (auto simp add: split_beta Let_def DurationUnit_def)
  ultimately show ?thesis using f c by simp
qed

theorem known_unit_never_raises_witness:
  "''week'' \<in> set DurationUnit
    \<and> (\<exists>f. map_of (unitCalculators utc) ''week'' = Some f)
    \<and> (\<exists>v. calculateDuration utc (Some 0) (Some 1000) ''week'' = Inr v)
    \<and> (\<exists>r. fst (hasSame utc 0 1 ''week'' wed_and_sun) = Inr r)
    \<and> (\<exists>r. fst (hasBefore utc 0 1 ''week'' wed_and_sun) = Inr r)
    \<and> (\<exists>r. fst (hasAfter utc 0 1 ''week'' wed_and_sun) = Inr r)"
proof -
  have h: "''week'' \<in> set DurationUnit" by (simp add: DurationUnit_def)
  show ?thesis
    using h known_unit_never_raises[OF h, of utc "Some 0" "Some 1000" 0 1 wed_and_sun]
    by simp
qed

section \<open>Subtraction is addition of the negated amount\<close>

text \<open>
  Claim C8. For each of the seven units, every Date \<open>d\<close> (an invalid one too) and every
  Number \<open>n\<close>, \<^verbatim>\<open>subtract<Unit>(d, n)\<close> returns the Date that \<^verbatim>\<open>add<Unit>(d, -n)\<close> returns.
\<close>

theorem subtract_is_add_negated:
  "subtractSeconds tz d n = addSeconds tz d (negate_number n)
   \<and> subtractMinutes tz d n = addMinutes tz d (negate_number n)
   \<and> subtractHours tz d n = addHours tz d (negate_number n)
   \<and> subtractDays tz d n = addDays tz d (negate_number n)
   \<and> subtractWeeks d n = addWeeks d (negate_number n)
   \<and> subtractMonths tz d n = addMonths tz d (negate_number n)
   \<and> subtractYears tz d n = addYears tz d (negate_number n)"
  by (simp add: subtractSeconds_def subtractMinutes_def subtractHours_def subtractDays_def
      subtractWeeks_def subtractMonths_def subtractYears_def)

section \<open>Comparison by one calendar field\<close>

text \<open>
  Claim C9. For the units year, month, day, hour, minute and second and two valid Dates,
  \<^verbatim>\<open>hasSame\<close>, \<^verbatim>\<open>hasBefore\<close> and \<^verbatim>\<open>hasAfter\<close> compare the one field that the unit
  names, read from each Date in local time, and nothing else; they leave the Dates as they
  were. In particular two Dates with the same month number have the same month, whatever
  their years.
\<close>

theorem unit_comparison_one_field:
  assumes "unit \<in> set [''year'', ''month'', ''day'', ''hour'', ''minute'', ''second'']"
    and "s r1 = Some a" and "s r2 = Some b"
  shows "hasSame tz r1 r2 unit s = (Inr (unitField unit tz a = unitField unit tz b), s)
    \<and> hasBefore tz r1 r2 unit s = (Inr (unitField unit tz a < unitField unit tz b), s)
    \<and> hasAfter tz r1 r2 unit s = (Inr (unitField unit tz a > unitField unit tz b), s)
    \<and> (MonthFromTime (LocalTime tz a) = MonthFromTime (LocalTime tz b)
        \<longrightarrow> hasSame tz r1 r2 ''month'' s = (Inr True, s))"
proof -
  have u: "unit = ''year'' \<or> unit = ''month'' \<or> unit = ''day'' \<or> unit = ''hour''
      \<or> unit = ''minute'' \<or> unit = ''second''"
    using assms(1) by simp
  have same: "hasSame tz r1 r2 unit s = (Inr (unitField unit tz a = unitField unit tz b), s)"
    using u assms(2,3)
    by (auto simp add: hasSame_def unitField_def getter_defs compare_defs)
  have before: "hasBefore tz r1 r2 unit s = (Inr (unitField unit tz a < unitField unit tz b), s)"
    using u assms(2,3)
    by (auto simp add: hasBefore_def unitField_def getter_defs compare_defs)
  have after: "hasAfter tz r1 r2 unit s = (Inr (unitField unit tz a > unitField unit tz b), s)"
    using u assms(2,3)
    by (auto simp add: hasAfter_def unitField_def getter_defs compare_defs)
  have month: "MonthFromTime (LocalTime tz a) = MonthFromTime (LocalTime tz b)
        \<longrightarrow> hasSame tz r1 r2 ''month'' s = (Inr True, s)"
    using assms(2,3) by (simp add: hasSame_def getter_defs compare_defs)
  show ?thesis using same before after month by simp
qed

theorem unit_comparison_one_field_witness:
  "''month'' \<in> set [''year'', ''month'', ''day'', ''hour'', ''minute'', ''second'']
   \<and> decembers 0 = Some 1671062400000 \<and> decembers 1 = Some 1703462400000
   \<and> YearFromTime (LocalTime utc 1671062400000) = 2022
   \<and> YearFromTime (LocalTime utc 1703462400000) = 2023
   \<and> MonthFromTime (LocalTime utc 1671062400000) = MonthFromTime (LocalTime utc 1703462400000)
   \<and> hasSame utc 0 1 ''month'' decembers = (Inr True, decembers)
   \<and> hasBefore utc 0 1 ''month'' decembers = (Inr False, decembers)
   \<and> hasAfter utc 0 1 ''month'' decembers = (Inr False, decembers)"
proof -
  have u: "''month'' \<in> set [''year'', ''month'', ''day'', ''hour'', ''minute'', ''second'']"
    by simp
  have s: "decembers 0 = Some 1671062400000" "decembers 1 = Some 1703462400000"
    by (simp_all add: decembers_def)
  have y: "YearFromTime (LocalTime utc 1671062400000) = 2022"
    "YearFromTime (LocalTime utc 1703462400000) = 2023"
    by code_simp+
  have m: "MonthFromTime (LocalTime utc 1671062400000) = 11"
    "MonthFromTime (LocalTime utc 1703462400000) = 11"
    by code_simp+
  have f: "unitField ''month'' utc 1671062400000 = 11"
    "unitField ''month'' utc 1703462400000 = 11"
    by code_simp+
  show ?thesis
    using u s y m unit_comparison_one_field[OF u s, of utc] by (simp add: f)
qed

section \<open>Durations\<close>

text \<open>
  Claim C3, at a failing input. Two Dates three and a half days apart are one week apart
  in one order and zero weeks apart in the other: \<^verbatim>\<open>weeksBetween\<close> rounds the signed
  quotient, a tie going up, before it takes the absolute value.
\<close>

theorem weeks_between_asymmetric:
  "calculateDuration utc (Some 0) (Some 302400000) ''week'' = Inr (Some 1)
   \<and> calculateDuration utc (Some 302400000) (Some 0) ''week'' = Inr (Some 0)"
  by code_simp

text \<open>
  The other six units are symmetric, and so are weeks where the quotient that
  \<^verbatim>\<open>weeksBetween\<close> rounds is not an odd multiple of a half.
\<close>

lemma minus_number_swap: "minus_number y x = negate_number (minus_number x y)"
proof (cases x; cases y)
  fix a b assume "x = Some a" "y = Some b"
  then show ?thesis
    using ieee_uminus[of "a - b"] by (simp add: minus_number_def negate_number_def)
qed (simp_all add: minus_number_def negate_number_def)

lemma divide_number_negate:
  "divide_number (negate_number x) c = negate_number (divide_number x c)"
proof (cases x; cases c)
  fix a b assume "x = Some a" "c = Some b"
  then show ?thesis
    using ieee_uminus[of "a / b"] by (simp add: divide_number_def negate_number_def)
qed (simp_all add: divide_number_def negate_number_def)

lemma Math_abs_negate: "Math_abs (negate_number x) = Math_abs x"
  by (cases x) (simp_all add: Math_abs_def negate_number_def)

lemma between_symmetric:
  "secondsBetween a b = secondsBetween b a" "minutesBetween a b = minutesBetween b a"
  "hoursBetween a b = hoursBetween b a" "daysBetween a b = daysBetween b a"
  unfolding secondsBetween_def minutesBetween_def hoursBetween_def daysBetween_def Let_def
  by (simp_all only: minus_number_swap[where x = "num (getTime a)" and y = "num (getTime b)"]
      divide_number_negate Math_abs_negate)

lemma Math_abs_num_swap:
  "Math_abs (num (minus_field x y)) = Math_abs (num (minus_field y x))"
  by (cases x; cases y) (simp_all add: Math_abs_def num_def minus_field_def abs_minus_commute)

lemma yearsBetween_symmetric: "yearsBetween tz a b = yearsBetween tz b a"
  by (simp only: yearsBetween_def Math_abs_num_swap[of "getFullYear tz b"])

lemma monthsBetween_symmetric: "monthsBetween tz a b = monthsBetween tz b a"
proof (cases a; cases b)
  fix x y assume ab: "a = Some x" "b = Some y"
  have "\<bar>p * 12 + q\<bar> = \<bar>- p * 12 + - q\<bar>" for p q :: int
    using abs_minus_cancel[of "p * 12 + q"] by simp
  from this[of "YearFromTime (LocalTime tz y) - YearFromTime (LocalTime tz x)"
      "MonthFromTime (LocalTime tz y) - MonthFromTime (LocalTime tz x)"]
  show ?thesis
    by (simp add: ab monthsBetween_def Math_abs_def num_def field_defs getter_defs
        flip: of_int_abs)
qed (simp_all add: monthsBetween_def Math_abs_def num_def field_defs getter_defs)

lemma calculateDuration_symmetric_but_week:
  assumes "unit \<noteq> ''week''"
  shows "calculateDuration tz a b unit = calculateDuration tz b a unit"
  using assms
  by (simp add: calculateDuration_unfold unitCalculators_def between_symmetric[of a b]
      yearsBetween_symmetric[of tz a b] monthsBetween_symmetric[of tz a b])

lemma round_negated:
  fixes x :: rat
  assumes "x + 1 / 2 \<noteq> of_int \<lfloor>x + 1 / 2\<rfloor>"
  shows "\<lfloor>- x + 1 / 2\<rfloor> = - \<lfloor>x + 1 / 2\<rfloor>"
proof -
  define k where "k = \<lfloor>x + 1 / 2\<rfloor>"
  have "of_int k \<le> x + 1 / 2" "x + 1 / 2 < of_int k + 1" unfolding k_def by linarith+
  moreover have "x + 1 / 2 \<noteq> of_int k" using assms by (simp add: k_def)
  ultimately have "of_int (- k) \<le> - x + 1 / 2" "- x + 1 / 2 < of_int (- k) + 1" by simp_all
  then have "\<lfloor>- x + 1 / 2\<rfloor> = - k" by linarith
  then show ?thesis by (simp add: k_def)
qed

lemma weeksBetween_symmetric:
  assumes q: "divide_number (minus_number (num (getTime (Some b))) (num (getTime (Some a))))
      (intnum (7 * 24 * 60 * 60 * 1000)) = Some x"
    and x: "x + 1 / 2 \<noteq> of_int \<lfloor>x + 1 / 2\<rfloor>"
  shows "weeksBetween (Some a) (Some b) = weeksBetween (Some b) (Some a)"
proof -
  have "divide_number (minus_number (num (getTime (Some a))) (num (getTime (Some b))))
      (intnum (7 * 24 * 60 * 60 * 1000)) = Some (- x)"
    by (simp only: minus_number_swap[where x = "num (getTime (Some b))"
          and y = "num (getTime (Some a))"] divide_number_negate q)
      (simp add: negate_number_def)
  then have "weeksBetween (Some b) (Some a) = Some \<bar>of_int \<lfloor>- x + 1 / 2\<rfloor>\<bar>"
    by (simp add: weeksBetween_def Let_def Math_abs_def Math_round_def)
  moreover have "weeksBetween (Some a) (Some b) = Some \<bar>of_int \<lfloor>x + 1 / 2\<rfloor>\<bar>"
    using q by (simp add: weeksBetween_def Let_def Math_abs_def Math_round_def)
  ultimately show ?thesis by (simp only: round_negated[OF x] of_int_minus abs_minus_cancel)
qed

lemma floor_plus_half: "\<lfloor>(of_int m :: rat) + 1 / 2\<rfloor> = m"
  by linarith

lemma toFixed_of_int: "toFixed 2 (Some (of_int k)) = Some (of_int k)"
proof (cases "(10::rat) ^ 21 \<le> \<bar>of_int k\<bar>")
  case True
  then show ?thesis by (simp add: toFixed_def)
next
  case False
  have "\<bar>of_int k :: rat\<bar> * 10 ^ 2 = of_int (\<bar>k\<bar> * 100)" by simp
  then have "\<lfloor>\<bar>of_int k :: rat\<bar> * 10 ^ 2 + 1 / 2\<rfloor> = \<bar>k\<bar> * 100"
    using floor_plus_half[of "\<bar>k\<bar> * 100"] by simp
  moreover have "sgn (of_int k :: rat) * of_int (\<bar>k\<bar> * 100) / 10 ^ 2 = of_int k"
    by (simp add: sgn_if)
  ultimately show ?thesis using False by (simp add: toFixed_def)
qed


lemma Number_of_int: "Number (Some (of_int k)) = Some (of_int k)"
  by (simp add: Number_def)

text \<open>
  Claim C6. The duration in months between two valid Dates is the absolute value of twelve
  times the difference of their years plus the difference of their months, both read in
  local time; the day of the month and the time of day play no part. In particular, from
  a Date in January to a Date in February of the same year it is 1, as from January 31 to
  February 1.
\<close>

theorem months_duration:
  "calculateDuration tz (Some a) (Some b) ''month''
     = Inr (Some (of_int \<bar>(YearFromTime (LocalTime tz b) - YearFromTime (LocalTime tz a)) * 12
                     + (MonthFromTime (LocalTime tz b) - MonthFromTime (LocalTime tz a))\<bar>))
   \<and> (YearFromTime (LocalTime tz a) = YearFromTime (LocalTime tz b)
        \<and> MonthFromTime (LocalTime tz a) = 0 \<and> MonthFromTime (LocalTime tz b) = 1
      \<longrightarrow> calculateDuration tz (Some a) (Some b) ''month'' = Inr (Some 1))"

proof -
  define k where "k = \<bar>(YearFromTime (LocalTime tz b) - YearFromTime (LocalTime tz a)) * 12
                     + (MonthFromTime (LocalTime tz b) - MonthFromTime (LocalTime tz a))\<bar>"
  have "monthsBetween tz (Some a) (Some b) = Some (of_int k)"
    by (simp add: monthsBetween_def Math_abs_def num_def field_defs getter_defs k_def)
  then have c: "calculateDuration tz (Some a) (Some b) ''month'' = Inr (Some (of_int k))"
    by (simp add: calculateDuration_unfold unitCalculators_def toFixed_of_int Number_of_int)
  have "YearFromTime (LocalTime tz a) = YearFromTime (LocalTime tz b)
        \<and> MonthFromTime (LocalTime tz a) = 0 \<and> MonthFromTime (LocalTime tz b) = 1
      \<longrightarrow> k = 1"
    by (simp add: k_def)
  then show ?thesis using c unfolding k_def by auto
qed

theorem months_duration_witness:
  "YearFromTime (LocalTime utc 1675123200000) = YearFromTime (LocalTime utc 1675209600000)
   \<and> MonthFromTime (LocalTime utc 1675123200000) = 0
   \<and> DateFromTime (LocalTime utc 1675123200000) = 31
   \<and> MonthFromTime (LocalTime utc 1675209600000) = 1
   \<and> DateFromTime (LocalTime utc 1675209600000) = 1
   \<and> calculateDuration utc (Some 1675123200000) (Some 1675209600000) ''month'' = Inr (Some 1)"
proof -
  have y: "YearFromTime (LocalTime utc 1675123200000) = 2023"
    "YearFromTime (LocalTime utc 1675209600000) = 2023" by code_simp+
  have m: "MonthFromTime (LocalTime utc 1675123200000) = 0"
    "MonthFromTime (LocalTime utc 1675209600000) = 1" by code_simp+
  have d: "DateFromTime (LocalTime utc 1675123200000) = 31"
    "DateFromTime (LocalTime utc 1675209600000) = 1" by code_simp+
  show ?thesis
    using months_duration[of utc 1675123200000 1675209600000] by (simp add: y m d)
qed










section \<open>Addition and subtraction in turn\<close>

lemma field_ranges:
  "0 \<le> HourFromTime t \<and> HourFromTime t < 24"
  "0 \<le> MinFromTime t \<and> MinFromTime t < 60"
  "0 \<le> SecFromTime t \<and> SecFromTime t < 60"
  "0 \<le> msFromTime t \<and> msFromTime t < 1000"
  by (simp_all add: HourFromTime_def MinFromTime_def SecFromTime_def msFromTime_def
      msPerSecond_def)

lemma DayWithinYear_range:
  "0 \<le> DayWithinYear t \<and> DayWithinYear t < DaysInYear (YearFromTime t)"
  using YearFromTime_spec[of t] by (simp add: DayWithinYear_def DayFromYear_next)

lemma DateFromTime_range: "1 \<le> DateFromTime t \<and> DateFromTime t \<le> 31"
proof -
  define d where "d = DayWithinYear t"
  define l where "l = InLeapYear t"
  have l: "l = 0 \<or> l = 1" by (simp add: l_def InLeapYear_def)
  have "0 \<le> d" "d < 365 + l"
    using DayWithinYear_range[of t] DaysInYear_cases[of "YearFromTime t"]
    by (auto simp add: d_def l_def InLeapYear_def)
  then show ?thesis
    unfolding DateFromTime_def MonthFromTime_def Let_def d_def[symmetric] l_def[symmetric]
    using l by (auto split: if_splits)
qed

lemma times_int:
  assumes "\<bar>a * b\<bar> \<le> 9007199254740992"
  shows "times_number (intnum a) (intnum b) = intnum (a * b)"
  using ieee_of_int[OF assms] by (simp add: times_number_def intnum_def)

lemma plus_int:
  assumes "\<bar>a + b\<bar> \<le> 9007199254740992"
  shows "plus_number (intnum a) (intnum b) = intnum (a + b)"
  using ieee_of_int[OF assms] by (simp add: plus_number_def intnum_def)

lemma floor_intnum: "map_option floor (intnum x) = Some x"
  by (simp add: intnum_def)

lemma MakeTime_int:
  assumes "\<bar>h * 3600000\<bar> \<le> 9007199254740992" and "\<bar>m * 60000\<bar> \<le> 9007199254740992"
    and "\<bar>s * 1000\<bar> \<le> 9007199254740992"
    and "\<bar>h * 3600000 + m * 60000\<bar> \<le> 9007199254740992"
    and "\<bar>h * 3600000 + m * 60000 + s * 1000\<bar> \<le> 9007199254740992"
    and "\<bar>h * 3600000 + m * 60000 + s * 1000 + ms\<bar> \<le> 9007199254740992"
  shows "MakeTime (intnum h) (intnum m) (intnum s) (intnum ms)
    = Some (h * 3600000 + m * 60000 + s * 1000 + ms)"
proof -
  have "MakeTime (intnum h) (intnum m) (intnum s) (intnum ms)
    = map_option floor
        (plus_number (plus_number (plus_number
            (times_number (intnum h) (intnum 3600000))
            (times_number (intnum m) (intnum 60000)))
            (times_number (intnum s) (intnum 1000)))
            (intnum ms))"
    by (simp add: MakeTime_def intnum_def ToIntegerOrInfinity_of_int msPerHour_def
        msPerMinute_def msPerSecond_def)
  also have "\<dots> = Some (h * 3600000 + m * 60000 + s * 1000 + ms)"
    by (simp only: times_int[OF assms(1)] times_int[OF assms(2)] times_int[OF assms(3)]
        plus_int[OF assms(4)] plus_int[OF assms(5)] plus_int[OF assms(6)] floor_intnum)
  finally show ?thesis .
qed


lemma UTC_Some: "UTC tz (Some l) = Some (utcOf tz l)"
  by (simp add: UTC_def utcOf_def)

lemma MakeDate_Some: "MakeDate (Some d) (Some t) = Some (d * 86400000 + t)"
  by (simp add: MakeDate_def msPerDay_def)

lemma local_time_split:
  "Day l * 86400000 + (HourFromTime l * 3600000 + MinFromTime l * 60000
     + SecFromTime l * 1000 + msFromTime l) = l"
  using time_fields[of l]
  by (simp add: msPerDay_def msPerHour_def msPerMinute_def msPerSecond_def)

lemma addSeconds_shifted:
  assumes "\<bar>n * 1000\<bar> + msPerDay \<le> 9007199254740992"
  shows "addSeconds tz (Some d) (intnum n) = TimeClip (Some (shifted tz d (n * 1000)))"
proof -
  define l where "l = LocalTime tz d"
  define H where "H = HourFromTime l"
  define M where "M = MinFromTime l"
  define S where "S = SecFromTime l"
  define ms where "ms = msFromTime l"
  have r: "0 \<le> H" "H < 24" "0 \<le> M" "M < 60" "0 \<le> S" "S < 60" "0 \<le> ms" "ms < 1000"
    using field_ranges[of l] by (simp_all add: H_def M_def S_def ms_def)
  have b: "\<bar>n * 1000\<bar> + 86400000 \<le> 9007199254740992"
    using assms by (simp add: msPerDay_def)
  have s: "plus_number (num (getSeconds tz (Some d))) (intnum n) = intnum (S + n)"
    unfolding getSeconds_def option.simps l_def[symmetric] S_def[symmetric]
    using r b plus_int[of S n] by (simp add: num_def intnum_def)
  have "MakeTime (intnum H) (intnum M) (intnum (S + n)) (intnum ms)
      = Some (H * 3600000 + M * 60000 + (S + n) * 1000 + ms)"
    using r b by (intro MakeTime_int) simp_all
  then have "MakeDate (Some (Day l)) (MakeTime (intnum H) (intnum M) (intnum (S + n)) (intnum ms))
      = Some (l + n * 1000)"
    using local_time_split[of l]
    by (simp add: MakeDate_Some H_def M_def S_def ms_def algebra_simps)
  then show ?thesis
    unfolding addSeconds_def setSeconds_def Let_def s
    by (simp add: l_def[symmetric] H_def[symmetric] M_def[symmetric] ms_def[symmetric]
        UTC_Some shifted_def)
qed


lemma addMinutes_shifted:
  assumes "\<bar>n * 60000\<bar> + msPerDay \<le> 9007199254740992"
  shows "addMinutes tz (Some d) (intnum n) = TimeClip (Some (shifted tz d (n * 60000)))"
proof -
  define l where "l = LocalTime tz d"
  define H where "H = HourFromTime l"
  define M where "M = MinFromTime l"
  define S where "S = SecFromTime l"
  define ms where "ms = msFromTime l"
  have r: "0 \<le> H" "H < 24" "0 \<le> M" "M < 60" "0 \<le> S" "S < 60" "0 \<le> ms" "ms < 1000"
    using field_ranges[of l] by (simp_all add: H_def M_def S_def ms_def)
  have b: "\<bar>n * 60000\<bar> + 86400000 \<le> 9007199254740992"
    using assms by (simp add: msPerDay_def)
  have s: "plus_number (num (getMinutes tz (Some d))) (intnum n) = intnum (M + n)"
    unfolding getMinutes_def option.simps l_def[symmetric] M_def[symmetric]
    using r b plus_int[of M n] by (simp add: num_def intnum_def)
  have "MakeTime (intnum H) (intnum (M + n)) (intnum S) (intnum ms)
      = Some (H * 3600000 + (M + n) * 60000 + S * 1000 + ms)"
    using r b by (intro MakeTime_int) simp_all
  then have "MakeDate (Some (Day l)) (MakeTime (intnum H) (intnum (M + n)) (intnum S) (intnum ms))
      = Some (l + n * 60000)"
    using local_time_split[of l]
    by (simp add: MakeDate_Some H_def M_def S_def ms_def algebra_simps)
  then show ?thesis
    unfolding addMinutes_def setMinutes_def Let_def s
    by (simp add: l_def[symmetric] H_def[symmetric] S_def[symmetric] ms_def[symmetric]
        UTC_Some shifted_def)
qed

lemma addHours_shifted:
  assumes "\<bar>n * 3600000\<bar> + msPerDay \<le> 9007199254740992"
  shows "addHours tz (Some d) (intnum n) = TimeClip (Some (shifted tz d (n * 3600000)))"
proof -
  define l where "l = LocalTime tz d"
  define H where "H = HourFromTime l"
  define M where "M = MinFromTime l"
  define S where "S = SecFromTime l"
  define ms where "ms = msFromTime l"
  have r: "0 \<le> H" "H < 24" "0 \<le> M" "M < 60" "0 \<le> S" "S < 60" "0 \<le> ms" "ms < 1000"
    using field_ranges[of l] by (simp_all add: H_def M_def S_def ms_def)
  have b: "\<bar>n * 3600000\<bar> + 86400000 \<le> 9007199254740992"
    using assms by (simp add: msPerDay_def)
  have s: "plus_number (num (getHours tz (Some d))) (intnum n) = intnum (H + n)"
    unfolding getHours_def option.simps l_def[symmetric] H_def[symmetric]
    using r b plus_int[of H n] by (simp add: num_def intnum_def)
  have "MakeTime (intnum (H + n)) (intnum M) (intnum S) (intnum ms)
      = Some ((H + n) * 3600000 + M * 60000 + S * 1000 + ms)"
    using r b by (intro MakeTime_int) simp_all
  then have "MakeDate (Some (Day l)) (MakeTime (intnum (H + n)) (intnum M) (intnum S) (intnum ms))
      = Some (l + n * 3600000)"
    using local_time_split[of l]
    by (simp add: MakeDate_Some H_def M_def S_def ms_def algebra_simps)
  then show ?thesis
    unfolding addHours_def setHours_def Let_def s
    by (simp add: l_def[symmetric] M_def[symmetric] S_def[symmetric] ms_def[symmetric]
        UTC_Some shifted_def)
qed

lemma setDate_shifted:
  "setDate tz (Some d) (intnum (DateFromTime (LocalTime tz d) + n))
     = TimeClip (Some (shifted tz d (n * 86400000)))"
proof -
  define l where "l = LocalTime tz d"
  have "MakeDate (MakeDay (intnum (YearFromTime l)) (intnum (MonthFromTime l))
            (intnum (DateFromTime l + n))) (Some (TimeWithinDay l))
        = Some (l + n * 86400000)"
    unfolding MakeDay_fields
    using day_and_time_within_day[of l]
    by (simp add: MakeDate_def msPerDay_def algebra_simps)
  then show ?thesis
    by (simp add: setDate_def Let_def l_def[symmetric] UTC_Some shifted_def)
qed

lemma addDays_shifted:
  assumes "\<bar>n\<bar> + 31 \<le> 9007199254740992"
  shows "addDays tz (Some d) (intnum n) = TimeClip (Some (shifted tz d (n * 86400000)))"
proof -
  have "\<bar>DateFromTime (LocalTime tz d) + n\<bar> \<le> 9007199254740992"
    using assms DateFromTime_range[of "LocalTime tz d"] by linarith
  from plus_int[OF this]
  have "plus_number (num (getDate tz (Some d))) (intnum n)
      = intnum (DateFromTime (LocalTime tz d) + n)"
    by (simp add: num_def getDate_def intnum_def)
  then show ?thesis
    using setDate_shifted[of tz d n] by (simp add: addDays_def Let_def)
qed

lemma newDate_of_int: "newDate (Some (of_int k)) = TimeClip (Some k)"
  by (simp add: newDate_def ToIntegerOrInfinity_of_int)

lemma TimeClip_valid: "validInstant t \<Longrightarrow> TimeClip (Some t) = Some t"
  by (simp add: TimeClip_def validInstant_def)

lemma addWeeks_int:
  assumes "validInstant d" and "validInstant (d + n * 604800000)"
  shows "addWeeks (Some d) (intnum n) = Some (d + n * 604800000)"
proof -
  have "\<bar>n * 604800000\<bar> < 18014398509481984"
    using assms by (simp add: validInstant_def maxTimeValue_def)
  then have t: "times_number (intnum n) (intnum (7 * 24 * 60 * 60 * 1000))
      = intnum (n * 604800000)"
    using ieee_of_int_even[of "n * 604800000"] by (simp add: times_number_def intnum_def)
  have "\<bar>d + n * 604800000\<bar> \<le> 9007199254740992"
    using assms(2) by (simp add: validInstant_def maxTimeValue_def)
  then have "plus_number (num (getTime (Some d))) (intnum (n * 604800000))
      = Some (of_int (d + n * 604800000))"
    using ieee_of_int[of "d + n * 604800000"]
    by (simp add: plus_number_def num_def intnum_def getTime_def)
  then show ?thesis
    unfolding addWeeks_def Let_def t
    by (simp only: newDate_of_int TimeClip_valid[OF assms(2)])
qed

lemma negate_intnum: "negate_number (intnum n) = intnum (- n)"
  by (simp add: negate_number_def intnum_def)

lemma round_trip_step:
  assumes add: "\<And>t m. ok m
      \<Longrightarrow> add (Some t) (intnum m) = TimeClip (Some (shifted tz t (m * c)))"
    and n: "ok n" "ok (- n)"
    and v: "validInstant d" and p: "plainShift tz d (n * c)"
  shows "add (Some d) (intnum n) = Some (shifted tz d (n * c))
    \<and> add (add (Some d) (intnum n)) (negate_number (intnum n)) = Some d"
proof -
  have 1: "add (Some d) (intnum n) = Some (shifted tz d (n * c))"
    using p by (simp add: add[OF n(1)] TimeClip_valid plainShift_def)
  have "add (Some (shifted tz d (n * c))) (intnum (- n))
      = TimeClip (Some (shifted tz (shifted tz d (n * c)) (- n * c)))"
    by (rule add[OF n(2)])
  also have "shifted tz (shifted tz d (n * c)) (- n * c) = d"
    using p by (simp add: plainShift_def shifted_def[of tz "shifted tz d (n * c)"])
  finally show ?thesis using v by (simp add: 1 negate_intnum TimeClip_valid)
qed

text \<open>
  Claim C5, as amended. Let \<open>d\<close> be a valid Date and \<open>n\<close> an integer. For seconds, minutes,
  hours and days, \<^verbatim>\<open>add<Unit>(d, n)\<close> is the Date at the local time of \<open>d\<close> moved by \<open>n\<close>
  units, and subtracting \<open>n\<close> from it gives the time value of \<open>d\<close> again, where
  \<^item> the amount is small enough for the sums of the host to be exact (\<open>n\<close> units and a day
    are at most \<open>2 ^ 53\<close> milliseconds; for days, \<open>n\<close> and 31 are at most \<open>2 ^ 53\<close>),
  \<^item> the host reads the local time of \<open>d\<close> as \<open>d\<close>, and the local time moved by \<open>n\<close> units
    is one that no change of the clock skips, and
  \<^item> the Date at the moved local time is valid.
  The clock may change between the two Dates. For weeks, which are added to the time value,
  it is enough that \<open>d\<close> plus \<open>n\<close> weeks is a valid Date.
\<close>

theorem add_subtract_round_trip:
  assumes "validInstant d"
  shows "(\<bar>n * 1000\<bar> + msPerDay \<le> 9007199254740992 \<and> plainShift tz d (n * 1000) \<longrightarrow>
            addSeconds tz (Some d) (intnum n) = Some (shifted tz d (n * 1000))
            \<and> subtractSeconds tz (addSeconds tz (Some d) (intnum n)) (intnum n) = Some d)
    \<and> (\<bar>n * 60000\<bar> + msPerDay \<le> 9007199254740992 \<and> plainShift tz d (n * 60000) \<longrightarrow>
            addMinutes tz (Some d) (intnum n) = Some (shifted tz d (n * 60000))
            \<and> subtractMinutes tz (addMinutes tz (Some d) (intnum n)) (intnum n) = Some d)
    \<and> (\<bar>n * 3600000\<bar> + msPerDay \<le> 9007199254740992 \<and> plainShift tz d (n * 3600000) \<longrightarrow>
            addHours tz (Some d) (intnum n) = Some (shifted tz d (n * 3600000))
            \<and> subtractHours tz (addHours tz (Some d) (intnum n)) (intnum n) = Some d)
    \<and> (\<bar>n\<bar> + 31 \<le> 9007199254740992 \<and> plainShift tz d (n * 86400000) \<longrightarrow>
            addDays tz (Some d) (intnum n) = Some (shifted tz d (n * 86400000))
            \<and> subtractDays tz (addDays tz (Some d) (intnum n)) (intnum n) = Some d)
    \<and> (validInstant (d + n * 604800000) \<longrightarrow>
            addWeeks (Some d) (intnum n) = Some (d + n * 604800000)
            \<and> subtractWeeks (addWeeks (Some d) (intnum n)) (intnum n) = Some d)"
proof -
  have seconds: "addSeconds tz (Some d) (intnum n) = Some (shifted tz d (n * 1000))
      \<and> subtractSeconds tz (addSeconds tz (Some d) (intnum n)) (intnum n) = Some d"
    if "\<bar>n * 1000\<bar> + msPerDay \<le> 9007199254740992" and "plainShift tz d (n * 1000)"
    unfolding subtractSeconds_def
    by (rule round_trip_step[where ok = "\<lambda>m. \<bar>m * 1000\<bar> + msPerDay \<le> 9007199254740992"])
      (use that assms in \<open>simp_all add: addSeconds_shifted\<close>)
  have minutes: "addMinutes tz (Some d) (intnum n) = Some (shifted tz d (n * 60000))
      \<and> subtractMinutes tz (addMinutes tz (Some d) (intnum n)) (intnum n) = Some d"
    if "\<bar>n * 60000\<bar> + msPerDay \<le> 9007199254740992" and "plainShift tz d (n * 60000)"
    unfolding subtractMinutes_def
    by (rule round_trip_step[where ok = "\<lambda>m. \<bar>m * 60000\<bar> + msPerDay \<le> 9007199254740992"])
      (use that assms in \<open>simp_all add: addMinutes_shifted\<close>)
  have hours: "addHours tz (Some d) (intnum n) = Some (shifted tz d (n * 3600000))
      \<and> subtractHours tz (addHours tz (Some d) (intnum n)) (intnum n) = Some d"
    if "\<bar>n * 3600000\<bar> + msPerDay \<le> 9007199254740992" and "plainShift tz d (n * 3600000)"
    unfolding subtractHours_def
    by (rule round_trip_step[where ok = "\<lambda>m. \<bar>m * 3600000\<bar> + msPerDay \<le> 9007199254740992"])
      (use that assms in \<open>simp_all add: addHours_shifted\<close>)
  have days: "addDays tz (Some d) (intnum n) = Some (shifted tz d (n * 86400000))
      \<and> subtractDays tz (addDays tz (Some d) (intnum n)) (intnum n) = Some d"
    if "\<bar>n\<bar> + 31 \<le> 9007199254740992" and "plainShift tz d (n * 86400000)"
    unfolding subtractDays_def
    by (rule round_trip_step[where ok = "\<lambda>m. \<bar>m\<bar> + 31 \<le> 9007199254740992"])
      (use that assms in \<open>simp_all add: addDays_shifted\<close>)
  have weeks: "addWeeks (Some d) (intnum n) = Some (d + n * 604800000)
      \<and> subtractWeeks (addWeeks (Some d) (intnum n)) (intnum n) = Some d"
    if w: "validInstant (d + n * 604800000)"
  proof -
    have 1: "addWeeks (Some d) (intnum n) = Some (d + n * 604800000)"
      by (rule addWeeks_int[OF assms w])
    have "addWeeks (Some (d + n * 604800000)) (intnum (- n))
        = Some (d + n * 604800000 + - n * 604800000)"
      by (rule addWeeks_int[OF w]) (use assms in simp)
    then show ?thesis by (simp add: 1 subtractWeeks_def negate_intnum)
  qed
  show ?thesis using seconds minutes hours days weeks by blast
qed

theorem add_subtract_round_trip_witness:
  "validInstant 1672531200000
   \<and> \<bar>3 * 1000\<bar> + msPerDay \<le> 9007199254740992 \<and> plainShift utc 1672531200000 (3 * 1000)
   \<and> addSeconds utc (Some 1672531200000) (intnum 3) = Some 1672531203000
   \<and> subtractSeconds utc (addSeconds utc (Some 1672531200000) (intnum 3)) (intnum 3)
       = Some 1672531200000
   \<and> \<bar>3 * 60000\<bar> + msPerDay \<le> 9007199254740992 \<and> plainShift utc 1672531200000 (3 * 60000)
   \<and> addMinutes utc (Some 1672531200000) (intnum 3) = Some 1672531380000
   \<and> subtractMinutes utc (addMinutes utc (Some 1672531200000) (intnum 3)) (intnum 3)
       = Some 1672531200000
   \<and> \<bar>3 * 3600000\<bar> + msPerDay \<le> 9007199254740992
   \<and> plainShift utc 1672531200000 (3 * 3600000)
   \<and> addHours utc (Some 1672531200000) (intnum 3) = Some 1672542000000
   \<and> subtractHours utc (addHours utc (Some 1672531200000) (intnum 3)) (intnum 3)
       = Some 1672531200000
   \<and> validInstant (1672531200000 + 3 * 604800000)
   \<and> addWeeks (Some 1672531200000) (intnum 3) = Some 1674345600000
   \<and> subtractWeeks (addWeeks (Some 1672531200000) (intnum 3)) (intnum 3)
       = Some 1672531200000
   \<and> validInstant 1705320000000
   \<and> \<bar>100\<bar> + 31 \<le> (9007199254740992 :: int)
   \<and> plainShift springForward 1705320000000 (100 * 86400000)
   \<and> addDays springForward (Some 1705320000000) (intnum 100) = Some 1713956400000
   \<and> subtractDays springForward (addDays springForward (Some 1705320000000) (intnum 100))
        (intnum 100) = Some 1705320000000"
proof -
  have v: "validInstant 1672531200000" "validInstant 1705320000000"
    "validInstant (1672531200000 + 3 * 604800000)"
    by (simp_all add: validInstant_def maxTimeValue_def)
  have b: "\<bar>3 * 1000\<bar> + msPerDay \<le> 9007199254740992"
    "\<bar>3 * 60000\<bar> + msPerDay \<le> 9007199254740992"
    "\<bar>3 * 3600000\<bar> + msPerDay \<le> 9007199254740992"
    "\<bar>100\<bar> + 31 \<le> (9007199254740992 :: int)"
    by (simp_all add: msPerDay_def)
  have p: "plainShift utc 1672531200000 (3 * 1000)"
    "plainShift utc 1672531200000 (3 * 60000)"
    "plainShift utc 1672531200000 (3 * 3600000)"
    "plainShift springForward 1705320000000 (100 * 86400000)"
    by code_simp+
  have s: "shifted utc 1672531200000 (3 * 1000) = 1672531203000"
    "shifted utc 1672531200000 (3 * 60000) = 1672531380000"
    "shifted utc 1672531200000 (3 * 3600000) = 1672542000000"
    "shifted springForward 1705320000000 (100 * 86400000) = 1713956400000"
    by code_simp+
  from add_subtract_round_trip[OF v(1), of 3 utc] b p v
  have u: "addSeconds utc (Some 1672531200000) (intnum 3)
      = Some (shifted utc 1672531200000 (3 * 1000))"
    "addMinutes utc (Some 1672531200000) (intnum 3)
      = Some (shifted utc 1672531200000 (3 * 60000))"
    "addHours utc (Some 1672531200000) (intnum 3)
      = Some (shifted utc 1672531200000 (3 * 3600000))"
    "addWeeks (Some 1672531200000) (intnum 3) = Some (1672531200000 + 3 * 604800000)"
    and r: "subtractSeconds utc (addSeconds utc (Some 1672531200000) (intnum 3)) (intnum 3)
      = Some 1672531200000"
    "subtractMinutes utc (addMinutes utc (Some 1672531200000) (intnum 3)) (intnum 3)
      = Some 1672531200000"
    "subtractHours utc (addHours utc (Some 1672531200000) (intnum 3)) (intnum 3)
      = Some 1672531200000"
    "subtractWeeks (addWeeks (Some 1672531200000) (intnum 3)) (intnum 3)
      = Some 1672531200000"
    by blast+
  from add_subtract_round_trip[OF v(2), of 100 springForward] b p
  have w: "addDays springForward (Some 1705320000000) (intnum 100)
      = Some (shifted springForward 1705320000000 (100 * 86400000))"
    and x: "subtractDays springForward
        (addDays springForward (Some 1705320000000) (intnum 100)) (intnum 100)
      = Some 1705320000000"
    by blast+
  have a: "addSeconds utc (Some 1672531200000) (intnum 3) = Some 1672531203000"
    "addMinutes utc (Some 1672531200000) (intnum 3) = Some 1672531380000"
    "addHours utc (Some 1672531200000) (intnum 3) = Some 1672542000000"
    "addWeeks (Some 1672531200000) (intnum 3) = Some 1674345600000"
    "addDays springForward (Some 1705320000000) (intnum 100) = Some 1713956400000"
    using u w by (simp_all only: s) simp
  show ?thesis by (intro conjI v b p a r x)
qed

text \<open>
  Claim C5 as stated fails in three ways. At the last time value a Date can hold, one second
  more is an invalid Date, and so is what is subtracted from it. In a zone that moves its
  clocks forward, one second after 01:59:59 is 03:00:00, and one second subtracted from that
  is read as the skipped local time 02:59:59: the result is an hour late. And ten million
  million seconds, as milliseconds, are more than \<open>2 ^ 53\<close>: added to the time of day of a Date
  one millisecond after the first time value, the sum is rounded, and the round trip ends one
  millisecond early.
\<close>

theorem round_trip_counterexample:
  "validInstant 8640000000000000
   \<and> subtractSeconds utc (addSeconds utc (Some 8640000000000000) (intnum 1)) (intnum 1)
       \<noteq> Some 8640000000000000
   \<and> validInstant 1710053999000
   \<and> addSeconds springForward (Some 1710053999000) (intnum 1) = Some 1710054000000
   \<and> subtractSeconds springForward (addSeconds springForward (Some 1710053999000) (intnum 1))
        (intnum 1) \<noteq> Some 1710053999000
   \<and> validInstant (- 8639999999999999)
   \<and> addSeconds utc (Some (- 8639999999999999)) (intnum 10000000000000)
       = Some 1360000000000000
   \<and> subtractSeconds utc (addSeconds utc (Some (- 8639999999999999)) (intnum 10000000000000))
        (intnum 10000000000000) = Some (- 8640000000000000)"
  by code_simp

section \<open>The week comparison\<close>

text \<open>
  Claim C1, at a failing input. The first Date is a Wednesday; after any of
  \<^verbatim>\<open>hasSame\<close>, \<^verbatim>\<open>hasBefore\<close> and \<^verbatim>\<open>hasAfter\<close> with the unit \<^verbatim>\<open>week\<close> it holds the Monday
  before, 2023-01-02T00:00:00Z.
\<close>

theorem week_comparison_mutates:
  "wed_and_sun 0 = Some 1672790400000
   \<and> snd (hasSame utc 0 1 ''week'' wed_and_sun) 0 = Some 1672617600000
   \<and> snd (hasBefore utc 0 1 ''week'' wed_and_sun) 0 = Some 1672617600000
   \<and> snd (hasAfter utc 0 1 ''week'' wed_and_sun) 0 = Some 1672617600000"
  by code_simp

text \<open>
  Claim C2, at a failing input. A Tuesday at 10:00 and the Wednesday after it at 11:00 lie
  in one Monday-to-Sunday week, and \<^verbatim>\<open>hasSame\<close> with the unit \<^verbatim>\<open>week\<close> returns false:
  \<^verbatim>\<open>firstDayOfWeek\<close> moves the day to the Monday and keeps the time of day, so the two
  Mondays compared are one at 10:00 and one at 11:00.
\<close>

theorem same_week_other_time_of_day:
  "isoWeek utc 1672740000000 = isoWeek utc 1672830000000
   \<and> tue_and_wed 0 = Some 1672740000000 \<and> tue_and_wed 1 = Some 1672830000000
   \<and> fst (hasSame utc 0 1 ''week'' tue_and_wed) = Inr False"
  by code_simp

text \<open>
  What the week comparison does, in a zone of fixed offset, on two distinct valid Dates whose
  Mondays are valid too: it is true exactly when the Dates lie in the same week at the same
  time of day, and it leaves each Date at the Monday of its week.
\<close>

lemma fixedOffset_LocalTime: "fixedOffset tz \<Longrightarrow> LocalTime tz t = t + tz 0 True"
  by (simp add: fixedOffset_def LocalTime_def)

lemma fixedOffset_shifted:
  assumes "fixedOffset tz"
  shows "shifted tz t k = t + k"
proof -
  have a: "tz t True = tz 0 True" and b: "tz (t + tz 0 True + k) False = tz 0 True"
    using assms by (simp_all only: fixedOffset_def)
  show ?thesis unfolding shifted_def utcOf_def LocalTime_def a b by simp
qed

lemma setDate_fixed:
  assumes "fixedOffset tz"
  shows "setDate tz (Some t) (intnum (DateFromTime (LocalTime tz t) + n))
           = TimeClip (Some (t + n * 86400000))"
  by (simp only: setDate_shifted fixedOffset_shifted[OF assms])

lemma newDate_num_Some: "newDate (num (Some k)) = TimeClip (Some k)"
  using newDate_of_int[of k] by (simp add: num_def)

lemma WeekDay_range: "0 \<le> WeekDay t \<and> WeekDay t < 7"
  by (simp add: WeekDay_def)

lemma dayOfWeek_minus_one:
  fixes w :: int
  assumes "0 \<le> w" and "w < 7"
  shows "(if w = 0 then 7 else w) - 1 = (w + 6) mod 7"
proof (cases "w = 0")
  case True
  then show ?thesis by simp
next
  case False
  have e: "w + 6 = 7 * 1 + (w - 1)" by simp
  have "(w + 6) mod 7 = w - 1"
    by (rule int_mod_pos_eq[OF e]) (use assms False in simp_all)
  with False show ?thesis by simp
qed

lemma firstDayOfWeek_fixed:
  assumes f: "fixedOffset tz" and r: "s r = Some t"
    and v: "validInstant t" "validInstant (mondayOf tz t)"
  shows "firstDayOfWeek tz r s = (Some (mondayOf tz t), s(r := Some (mondayOf tz t)))"
proof -
  define l where "l = LocalTime tz t"
  define dow where "dow = (if WeekDay l = 0 then 7 else WeekDay l)"
  have m: "mondayOf tz t = t + (1 - dow) * 86400000"
    using dayOfWeek_minus_one[of "WeekDay l"] WeekDay_range[of l]
    by (simp add: mondayOf_def l_def[symmetric] dow_def msPerDay_def algebra_simps)
  have d: "(case getDay tz (Some t) of None \<Rightarrow> 7 | Some w \<Rightarrow> if w = 0 then 7 else w) = dow"
    by (simp add: getDay_def dow_def l_def)
  show ?thesis
  proof (cases "dow = 1")
    case True
    then have "mondayOf tz t = t" using m by simp
    then show ?thesis
      unfolding firstDayOfWeek_def r d using True r by (simp add: getTime_def fun_upd_idem)
  next
    case False
    have "num (plus_field (minus_field (getDate tz (Some t)) (Some dow)) (Some 1))
        = intnum (DateFromTime (LocalTime tz t) + (1 - dow))"
      by (simp add: field_defs num_def intnum_def getDate_def)
    then have "setDate tz (Some t)
        (num (plus_field (minus_field (getDate tz (Some t)) (Some dow)) (Some 1)))
        = Some (mondayOf tz t)"
      using setDate_fixed[OF f, of t "1 - dow"] TimeClip_valid[OF v(2)] by (simp add: m)
    then show ?thesis
      unfolding firstDayOfWeek_def r d using False TimeClip_valid[OF v(2)]
      by (simp add: Let_def getTime_def newDate_num_Some)
  qed
qed

lemma mondayOf_local:
  assumes "fixedOffset tz"
  shows "LocalTime tz (mondayOf tz t)
     = (7 * isoWeek tz t - 3) * msPerDay + TimeWithinDay (LocalTime tz t)"
proof -
  define l where "l = LocalTime tz t"
  define d where "d = Day l"
  define q where "q = (d + 3) div 7"
  define k where "k = (d + 3) mod 7"
  have "((d + 4) mod 7 + 6) mod 7 = (d + 4 + 6) mod 7" by (simp only: mod_add_left_eq)
  also have "d + 4 + 6 = d + 3 + 7 * 1" by simp
  also have "(d + 3 + 7 * 1) mod 7 = k" unfolding k_def by (simp only: mod_mult_self2)
  finally have w: "((d + 4) mod 7 + 6) mod 7 = k" .
  have dq: "d = 7 * q + k - 3" unfolding q_def k_def by simp
  have l: "l = d * 86400000 + TimeWithinDay l"
    using day_and_time_within_day[of l] by (simp add: d_def msPerDay_def)
  have "LocalTime tz (mondayOf tz t) = l - k * 86400000"
    unfolding fixedOffset_LocalTime[OF assms] mondayOf_def WeekDay_def
    unfolding fixedOffset_LocalTime[OF assms, symmetric] l_def[symmetric] d_def[symmetric] w
    by (simp add: msPerDay_def fixedOffset_LocalTime[OF assms] l_def)
  also have "\<dots> = (7 * q - 3) * 86400000 + TimeWithinDay l"
    using l dq by (simp add: algebra_simps)
  finally show ?thesis by (simp add: isoWeek_def q_def d_def l_def msPerDay_def)
qed

lemma TimeWithinDay_range: "0 \<le> TimeWithinDay t \<and> TimeWithinDay t < 86400000"
  by (simp add: TimeWithinDay_def msPerDay_def)

lemma mondayOf_eq_iff:
  assumes "fixedOffset tz"
  shows "mondayOf tz a = mondayOf tz b \<longleftrightarrow>
    isoWeek tz a = isoWeek tz b
    \<and> TimeWithinDay (LocalTime tz a) = TimeWithinDay (LocalTime tz b)"
proof -
  define wa where "wa = isoWeek tz a"
  define wb where "wb = isoWeek tz b"
  define ta where "ta = TimeWithinDay (LocalTime tz a)"
  define tb where "tb = TimeWithinDay (LocalTime tz b)"
  have ra: "0 \<le> ta" "ta < 86400000" and rb: "0 \<le> tb" "tb < 86400000"
    using TimeWithinDay_range by (simp_all add: ta_def tb_def)
  have "mondayOf tz a = mondayOf tz b
      \<longleftrightarrow> LocalTime tz (mondayOf tz a) = LocalTime tz (mondayOf tz b)"
    by (simp add: fixedOffset_LocalTime[OF assms])
  also have "\<dots> \<longleftrightarrow> (7 * wa - 3) * 86400000 + ta = (7 * wb - 3) * 86400000 + tb"
    by (simp add: mondayOf_local[OF assms] wa_def wb_def ta_def tb_def msPerDay_def)
  also have "\<dots> \<longleftrightarrow> wa = wb \<and> ta = tb"
  proof
    assume e: "(7 * wa - 3) * 86400000 + ta = (7 * wb - 3) * 86400000 + tb"
    have e': "604800000 * wa + ta = 604800000 * wb + tb" using e by simp
    have "\<not> wb + 1 \<le> wa" using e' ra rb by linarith
    moreover have "\<not> wa + 1 \<le> wb" using e' ra rb by linarith
    ultimately have "wa = wb" by linarith
    with e show "wa = wb \<and> ta = tb" by simp
  qed simp
  finally show ?thesis by (simp add: wa_def wb_def ta_def tb_def)
qed

lemma hasSame_week_fixed:
  assumes f: "fixedOffset tz" and r: "r1 \<noteq> r2" "s r1 = Some a" "s r2 = Some b"
    and v: "validInstant a" "validInstant b"
      "validInstant (mondayOf tz a)" "validInstant (mondayOf tz b)"
  shows "hasSame tz r1 r2 ''week'' s
    = (Inr (isoWeek tz a = isoWeek tz b
            \<and> TimeWithinDay (LocalTime tz a) = TimeWithinDay (LocalTime tz b)),
       s(r1 := Some (mondayOf tz a), r2 := Some (mondayOf tz b)))"
proof -
  have 1: "firstDayOfWeek tz r1 s = (Some (mondayOf tz a), s(r1 := Some (mondayOf tz a)))"
    using firstDayOfWeek_fixed[of tz s r1 a] f r v by simp
  have "(s(r1 := Some (mondayOf tz a))) r2 = Some b" using r by simp
  then have 2: "firstDayOfWeek tz r2 (s(r1 := Some (mondayOf tz a)))
      = (Some (mondayOf tz b), s(r1 := Some (mondayOf tz a), r2 := Some (mondayOf tz b)))"
    using firstDayOfWeek_fixed[of tz "s(r1 := Some (mondayOf tz a))" r2 b] f v by simp
  show ?thesis
    by (simp add: hasSame_def 1 2 strict_equal_def mondayOf_eq_iff[OF f])
qed

end
